theory Spec2Isabelle
  imports Complex_Main "HOL-Library.Word"
begin

unbundle bit_operations_syntax

section \<open>Data model\<close>

text \<open>
  The enumerations of the device code.  \<open>NMDeviceAuthMethod\<close> is declared in the
  device header in this order, so that \<open>auth--\<close> steps from Shared Key to Open System
  to None.
\<close>

datatype NMDeviceType =
  DEVICE_TYPE_DONT_KNOW | DEVICE_TYPE_WIRED_ETHERNET | DEVICE_TYPE_WIRELESS_ETHERNET

datatype NMDriverSupportLevel =
  NM_DRIVER_UNSUPPORTED | NM_DRIVER_SEMI_SUPPORTED | NM_DRIVER_FULLY_SUPPORTED

datatype NMDeviceAuthMethod =
  NM_DEVICE_AUTH_METHOD_UNKNOWN | NM_DEVICE_AUTH_METHOD_NONE
  | NM_DEVICE_AUTH_METHOD_OPEN_SYSTEM | NM_DEVICE_AUTH_METHOD_SHARED_KEY

datatype NMNetworkMode = NETWORK_MODE_UNKNOWN | NETWORK_MODE_INFRA | NETWORK_MODE_ADHOC

datatype NMEncKeyType =
  NM_ENC_TYPE_UNKNOWN | NM_ENC_TYPE_128_BIT_PASSPHRASE | NM_ENC_TYPE_ASCII_KEY
  | NM_ENC_TYPE_HEX_KEY

text \<open>The numeric value of an authentication method, and the C decrement on it.\<close>

fun auth_val :: "NMDeviceAuthMethod \<Rightarrow> int" where
  "auth_val NM_DEVICE_AUTH_METHOD_UNKNOWN = 0"
| "auth_val NM_DEVICE_AUTH_METHOD_NONE = 1"
| "auth_val NM_DEVICE_AUTH_METHOD_OPEN_SYSTEM = 2"
| "auth_val NM_DEVICE_AUTH_METHOD_SHARED_KEY = 3"

text \<open>
  \<open>auth--\<close>.  The loop that decrements runs only while \<open>auth > NONE\<close>, so the
  decrement of \<open>UNKNOWN\<close> (which leaves the enumeration in C) is never taken; the
  model keeps it at \<open>UNKNOWN\<close>.
\<close>

fun auth_dec :: "NMDeviceAuthMethod \<Rightarrow> NMDeviceAuthMethod" where
  "auth_dec NM_DEVICE_AUTH_METHOD_SHARED_KEY = NM_DEVICE_AUTH_METHOD_OPEN_SYSTEM"
| "auth_dec NM_DEVICE_AUTH_METHOD_OPEN_SYSTEM = NM_DEVICE_AUTH_METHOD_NONE"
| "auth_dec NM_DEVICE_AUTH_METHOD_NONE = NM_DEVICE_AUTH_METHOD_UNKNOWN"
| "auth_dec NM_DEVICE_AUTH_METHOD_UNKNOWN = NM_DEVICE_AUTH_METHOD_UNKNOWN"

text \<open>A \<open>struct ether_addr\<close>: six octets.\<close>

type_synonym ether_addr = "8 word list"

text \<open>Access points live in a store and are named by reference, as the C pointers do.\<close>

type_synonym ap_ref = nat

text \<open>
  Modelled from the spec: the access point record (its C structure is not part of the
  sources at hand).  The fields are the ones the device code reads and writes through
  the \<open>nm_ap_get_*\<close> and \<open>nm_ap_set_*\<close> accessors; an absent ESSID, address or key is
  \<open>None\<close> (a NULL pointer in C).  The timestamp is the \<open>tv_sec\<close> and \<open>tv_usec\<close> of a
  \<open>GTimeVal\<close>.
\<close>

record NMAccessPoint =
  ap_essid :: "string option"
  ap_address :: "ether_addr option"
  ap_mode :: NMNetworkMode
  ap_freq :: rat
  ap_strength :: int
  ap_encrypted :: bool
  ap_enc_key_source :: "string option"
  ap_enc_method :: NMEncKeyType
  ap_invalid :: bool
  ap_artificial :: bool
  ap_user_created :: bool
  ap_trusted :: bool
  ap_timestamp :: "int \<times> int"

text \<open>\<open>nm_ap_new\<close>: a zeroed record (\<open>g_new0\<close>).\<close>

definition nm_ap_new :: NMAccessPoint where
  "nm_ap_new = \<lparr> ap_essid = None, ap_address = None, ap_mode = NETWORK_MODE_UNKNOWN,
     ap_freq = 0, ap_strength = 0, ap_encrypted = False, ap_enc_key_source = None,
     ap_enc_method = NM_ENC_TYPE_UNKNOWN, ap_invalid = False, ap_artificial = False,
     ap_user_created = False, ap_trusted = False, ap_timestamp = (0, 0) \<rparr>"

subsection \<open>The kernel and the collaborators\<close>

text \<open>
  Every call that leaves the process is logged, oldest first: sockets, interface and
  wireless-extension ioctls, sleeps, and the calls to the system helpers and the
  DHCP, auto-IP and static configuration collaborators.
\<close>

datatype kcall =
    K_socket
  | K_SIOCGIFFLAGS
  | K_SIOCSIFFLAGS "16 word"
  | K_SIOCSIWESSID string
  | K_SIOCSIWENCODE "16 word" string
  | K_iw_in_key_full string
  | K_SIOCSIWMODE NMNetworkMode
  | K_SIOCSIWRATE int bool
  | K_SIOCGIWRATE
  | K_SIOCSIWFREQ rat
  | K_SIOCGIWAP
  | K_SIOCGIWNAME
  | K_iw_get_basic_config
  | K_iw_get_range_info
  | K_iw_get_stats
  | K_iw_scan
  | K_wired_link_probe bool
  | K_usleep int
  | K_delete_default_route
  | K_do_autoip
  | K_dhcp_request
  | K_setup_static_ip4_config
  | K_flush_arp_cache
  | K_restart_mdns_responder

text \<open>
  The kernel holds the interface flags, which only \<open>SIOCSIFFLAGS\<close> changes.  What the
  radio, the driver and the collaborators answer is outside the program: each answer
  is a function of the history of calls so far (which includes the time slept), so any
  deterministic environment is an instance.  \<open>None\<close> is a failed call.
\<close>

record kernel_state =
  k_log :: "kcall list"
  k_ifr_flags :: "16 word"
  k_socket_fails :: "kcall list \<Rightarrow> bool"
  k_gifflags_fails :: "kcall list \<Rightarrow> bool"
  k_sifflags_fails :: "kcall list \<Rightarrow> bool"
  k_iwap :: "kcall list \<Rightarrow> ether_addr option"
  k_iwname :: "kcall list \<Rightarrow> string option"
  k_basic_config_essid :: "kcall list \<Rightarrow> string option"
  k_in_key_full :: "kcall list \<Rightarrow> string \<Rightarrow> int \<times> string \<times> 16 word"
  k_rate :: "kcall list \<Rightarrow> int option"
  k_stats :: "kcall list \<Rightarrow> (int \<times> int \<times> int) option"
  k_wired_link :: "kcall list \<Rightarrow> bool"
  k_scan_unsupported :: "kcall list \<Rightarrow> bool"
  k_autoip_ok :: "kcall list \<Rightarrow> bool"
  k_dhcp_bound :: "kcall list \<Rightarrow> bool"
  k_static_ok :: "kcall list \<Rightarrow> bool"

text \<open>
  Helper functions of the program whose sources are not at hand and whose results the
  device code only passes on: the validity test of an Ethernet address, the hashed
  form of an access point's key, and the three key derivations.  They are carried as
  parameters.  So is \<open>nm_ap_list_append_ap\<close>, which adds an access point to a list: the
  spec makes a list a set in which duplicates collapse, so what the list is afterwards
  (given the store of access points, the list and the new reference) is the
  operation's to say.
\<close>

record NMUtils =
  nm_ethernet_address_is_valid :: "ether_addr \<Rightarrow> bool"
  nm_ap_get_enc_key_hashed :: "NMAccessPoint \<Rightarrow> string"
  nm_wireless_128bit_key_from_passphrase :: "string \<Rightarrow> string"
  nm_wireless_64bit_ascii_to_hex :: "string \<Rightarrow> string"
  nm_wireless_128bit_ascii_to_hex :: "string \<Rightarrow> string"
  nm_ap_list_append_ap :: "(ap_ref \<Rightarrow> NMAccessPoint) \<Rightarrow> ap_ref list \<Rightarrow> ap_ref \<Rightarrow> ap_ref list"

text \<open>Signals and calls on the host bus, and results handed to the main loop.\<close>

datatype NMDeviceStatus = DEVICE_NO_LONGER_ACTIVE | DEVICE_NOW_ACTIVE | DEVICE_ACTIVATING

datatype dbus_message =
    Signal_device_status_change NMDeviceStatus
  | Signal_device_ip4_address_change
  | Get_user_key_for_network ap_ref "8 word"

subsection \<open>The device and the application data\<close>

text \<open>
  \<open>struct NMDevice\<close>, with the wireless options (\<open>dev->options.wireless\<close>) and the
  configuration record (\<open>dev->config_info\<close>) as fields of the same record.  An AP list
  is the list of the references it holds, in order; \<open>None\<close> is a NULL list.
\<close>

record NMDevice =
  refcount :: int
  dev_type :: NMDeviceType
  test_device :: bool
  test_device_up :: bool
  driver_support_level :: NMDriverSupportLevel
  link_active :: bool
  ip4_address :: "32 word"
  activating :: bool
  quit_activation :: bool
  use_dhcp :: bool
  dhcp_iface :: bool
  num_frequency :: "8 word"
  supports_wireless_scan :: bool
  cur_essid :: "string option"
  now_scanning :: bool
  user_key_received :: bool
  freeze_best_ap :: bool
  best_ap :: "ap_ref option"
  ap_list :: "ap_ref list option"
  cached_ap_list1 :: "ap_ref list option"
  cached_ap_list2 :: "ap_ref list option"
  cached_ap_list3 :: "ap_ref list option"
  strength :: int
  noise :: int
  max_quality :: int
  invalid_strength_counter :: int

text \<open>\<open>struct NMData\<close>: the process-wide data the device code reads.\<close>

record NMData =
  starting_up :: bool
  is_active_device :: bool
  state_changed :: bool
  allowed_ap_list :: "ap_ref list"
  invalid_ap_list :: "ap_ref list"

text \<open>
  The whole state: the device, the application data, the store of access points with
  its next free reference, the kernel, the messages sent on the bus, the results
  scheduled for the main loop's idle handler, and the number of worker threads
  created.
\<close>

record NMState =
  dev :: NMDevice
  app_data :: NMData
  aps :: "ap_ref \<Rightarrow> NMAccessPoint"
  ap_next :: ap_ref
  kernel :: kernel_state
  utils :: NMUtils
  dbus :: "dbus_message list"
  idle_results :: "bool list"
  worker_threads :: nat
  thread_create_fails :: bool

section \<open>Radio control\<close>

definition klog :: "kcall \<Rightarrow> NMState \<Rightarrow> NMState" where
  "klog c s = s\<lparr>kernel := (kernel s)\<lparr>k_log := k_log (kernel s) @ [c]\<rparr>\<rparr>"

definition g_usleep :: "int \<Rightarrow> NMState \<Rightarrow> NMState" where
  "g_usleep usec s = klog (K_usleep usec) s"

definition G_USEC_PER_SEC :: int where
  "G_USEC_PER_SEC = 1000000"

text \<open>
  \<open>nm_device_open_sock\<close> and \<open>iw_sockets_open\<close>: whether a control socket was obtained.
\<close>

definition nm_device_open_sock :: "NMState \<Rightarrow> bool \<times> NMState" where
  "nm_device_open_sock s =
     (\<not> k_socket_fails (kernel s) (k_log (kernel s)), klog K_socket s)"

definition nm_device_is_wireless :: "NMDevice \<Rightarrow> bool" where
  "nm_device_is_wireless d = (dev_type d = DEVICE_TYPE_WIRELESS_ETHERNET)"

definition nm_device_is_wired :: "NMDevice \<Rightarrow> bool" where
  "nm_device_is_wired d = (dev_type d = DEVICE_TYPE_WIRED_ETHERNET)"

definition nm_device_get_ip4_address :: "NMDevice \<Rightarrow> 32 word" where
  "nm_device_get_ip4_address d = ip4_address d"

definition nm_device_get_link_active :: "NMDevice \<Rightarrow> bool" where
  "nm_device_get_link_active d = link_active d"

text \<open>
  \<open>nm_device_get_association_pause_value\<close>, in seconds; \<open>-1\<close> for a device that is not
  wireless.
\<close>

definition nm_device_get_association_pause_value :: "NMDevice \<Rightarrow> int" where
  "nm_device_get_association_pause_value d =
     (if \<not> nm_device_is_wireless d then -1
      else if 14 < num_frequency d then 10 else 5)"

subsection \<open>Interface flags\<close>

definition IFF_UP :: "32 word" where
  "IFF_UP = 1"

text \<open>
  \<open>nm_device_set_up_down\<close>.  \<open>flags\<close> is a \<open>guint32\<close>, \<open>ifr_flags\<close> a \<open>short\<close> that C
  promotes (with its sign) for the bit operations and truncates on assignment.  A test
  device records the request; an unsupported driver, a failed socket or a failed
  \<open>SIOCGIFFLAGS\<close> leave the interface alone; otherwise \<open>SIOCSIFFLAGS\<close> is issued only
  when the \<open>IFF_UP\<close> bit differs from the one asked for.
\<close>

definition nm_device_set_up_down :: "bool \<Rightarrow> NMState \<Rightarrow> NMState" where
  "nm_device_set_up_down up s =
     (let flags = (if up then IFF_UP else NOT IFF_UP) in
      if test_device (dev s) then s\<lparr>dev := (dev s)\<lparr>test_device_up := up\<rparr>\<rparr>
      else if driver_support_level (dev s) = NM_DRIVER_UNSUPPORTED then s
      else
        (case nm_device_open_sock s of
           (False, s1) \<Rightarrow> s1
         | (True, s1) \<Rightarrow>
             (let err = k_gifflags_fails (kernel s1) (k_log (kernel s1));
                  s2 = klog K_SIOCGIFFLAGS s1;
                  ifr_flags = k_ifr_flags (kernel s2)
              in if \<not> err then
                   (if ((scast ifr_flags XOR flags) AND IFF_UP) \<noteq> 0 then
                      (let ifr1 = (ucast ((scast ifr_flags :: 32 word) AND NOT IFF_UP) :: 16 word);
                           ifr2 = (ucast ((scast ifr1 :: 32 word) OR (IFF_UP AND flags)) :: 16 word);
                           err2 = k_sifflags_fails (kernel s2) (k_log (kernel s2));
                           s3 = klog (K_SIOCSIFFLAGS ifr2) s2
                       in if err2 then s3
                          else s3\<lparr>kernel := (kernel s3)\<lparr>k_ifr_flags := ifr2\<rparr>\<rparr>)
                    else s2)
                 else s2)))"

definition nm_device_bring_up :: "NMState \<Rightarrow> NMState" where
  "nm_device_bring_up s = nm_device_set_up_down True s"

definition nm_device_bring_down :: "NMState \<Rightarrow> NMState" where
  "nm_device_bring_down s = nm_device_set_up_down False s"

text \<open>\<open>nm_device_is_up\<close>: the answer, and the state with the calls it made logged.\<close>

definition nm_device_is_up :: "NMState \<Rightarrow> bool \<times> NMState" where
  "nm_device_is_up s =
     (if test_device (dev s) then (test_device_up (dev s), s)
      else
        (case nm_device_open_sock s of
           (False, s1) \<Rightarrow> (False, s1)
         | (True, s1) \<Rightarrow>
             (let err = k_gifflags_fails (kernel s1) (k_log (kernel s1));
                  s2 = klog K_SIOCGIFFLAGS s1;
                  ifr_flags = k_ifr_flags (kernel s2)
              in if \<not> err then
                   (\<not> (((scast ifr_flags XOR IFF_UP) AND IFF_UP) \<noteq> 0), s2)
                 else (False, s2))))"

subsection \<open>The associated access point's address\<close>

definition good_addr :: ether_addr where
  "good_addr = [0x70, 0x37, 0x03, 0x70, 0x37, 0x03]"

definition bad_addr :: ether_addr where
  "bad_addr = [0x00, 0x00, 0x00, 0x00, 0x00, 0x00]"

text \<open>
  \<open>nm_device_get_ap_address\<close>, as a function from the contents of the caller's buffer
  \<open>addr\<close> to its contents afterwards.  On a test device the code calls
  \<open>memcpy ((link ? &good_addr : &bad_addr), &(wrq.u.ap_addr.sa_data), ...)\<close>: the
  destination is the local \<open>good_addr\<close> or \<open>bad_addr\<close>, the source the uninitialised
  request, and the function returns; the caller's buffer is not written.  On a real
  device the result of \<open>iw_sockets_open\<close> is not checked; \<open>SIOCGIWAP\<close> fills the
  buffer, or it is zeroed when the call fails.
\<close>

definition nm_device_get_ap_address :: "ether_addr \<Rightarrow> NMState \<Rightarrow> ether_addr \<times> NMState" where
  "nm_device_get_ap_address addr s =
     (if \<not> nm_device_is_wireless (dev s) then (addr, s)
      else if test_device (dev s) then (addr, s)
      else
        (let s1 = klog K_socket s;
             r = k_iwap (kernel s1) (k_log (kernel s1));
             s2 = klog K_SIOCGIWAP s1
         in case r of
              Some a \<Rightarrow> (a, s2)
            | None \<Rightarrow> (bad_addr, s2)))"

subsection \<open>ESSID, key, mode, rate and frequency\<close>

definition iw_sockets_open :: "NMState \<Rightarrow> bool \<times> NMState" where
  "iw_sockets_open s =
     (\<not> k_socket_fails (kernel s) (k_log (kernel s)), klog K_socket s)"

definition IW_ESSID_MAX_SIZE :: nat where
  "IW_ESSID_MAX_SIZE = 32"

definition IW_ENCODING_TOKEN_MAX :: nat where
  "IW_ENCODING_TOKEN_MAX = 64"

definition IW_ENCODE_ENABLED :: "16 word" where
  "IW_ENCODE_ENABLED = 0x0000"

definition IW_ENCODE_DISABLED :: "16 word" where
  "IW_ENCODE_DISABLED = 0x8000"

definition IW_ENCODE_RESTRICTED :: "16 word" where
  "IW_ENCODE_RESTRICTED = 0x4000"

definition IW_ENCODE_OPEN :: "16 word" where
  "IW_ENCODE_OPEN = 0x2000"

definition IW_ENCODE_NOKEY :: "16 word" where
  "IW_ENCODE_NOKEY = 0x0800"

text \<open>
  \<open>nm_null_safe_strcmp (a, b) == 0\<close>: both NULL, or both strings and equal (the helper
  is not part of the sources at hand; this is what its name and its uses say).
\<close>

definition nm_null_safe_strcmp_eq :: "string option \<Rightarrow> string option \<Rightarrow> bool" where
  "nm_null_safe_strcmp_eq a b = (a = b)"

text \<open>
  \<open>nm_device_set_essid\<close>: a test device stores the string; a real one gets the ESSID
  cut to \<open>IW_ESSID_MAX_SIZE\<close> bytes, a failure being logged only.
\<close>

definition nm_device_set_essid :: "string option \<Rightarrow> NMState \<Rightarrow> NMState" where
  "nm_device_set_essid essid s =
     (if \<not> nm_device_is_wireless (dev s) then s
      else if test_device (dev s) then s\<lparr>dev := (dev s)\<lparr>cur_essid := essid\<rparr>\<rparr>
      else
        (let safe_essid = (case essid of None \<Rightarrow> [] | Some e \<Rightarrow> take IW_ESSID_MAX_SIZE e)
         in case iw_sockets_open s of
              (False, s1) \<Rightarrow> s1
            | (True, s1) \<Rightarrow> klog (K_SIOCSIWESSID safe_essid) s1))"

text \<open>
  \<open>nm_device_get_essid\<close>: a test device answers with the ESSID of its best access
  point, or \<open>cur_essid\<close> without one; a real one refreshes \<open>cur_essid\<close> from the driver
  when that works, and answers with it.
\<close>

definition nm_device_get_essid :: "NMState \<Rightarrow> string option \<times> NMState" where
  "nm_device_get_essid s =
     (if \<not> nm_device_is_wireless (dev s) then (None, s)
      else if test_device (dev s) then
        (case best_ap (dev s) of
           Some r \<Rightarrow> (ap_essid (aps s r), s)
         | None \<Rightarrow> (cur_essid (dev s), s))
      else
        (case iw_sockets_open s of
           (False, s1) \<Rightarrow> (cur_essid (dev s1), s1)
         | (True, s1) \<Rightarrow>
             (let r = k_basic_config_essid (kernel s1) (k_log (kernel s1));
                  s2 = klog K_iw_get_basic_config s1;
                  s3 = (case r of
                          Some e \<Rightarrow> s2\<lparr>dev := (dev s2)\<lparr>cur_essid := Some e\<rparr>\<rparr>
                        | None \<Rightarrow> s2)
              in (cur_essid (dev s3), s3))))"

text \<open>
  \<open>nm_device_set_enc_key\<close>.  An empty or absent key disables encryption
  (\<open>DISABLED | NOKEY\<close>); otherwise the key, cut to \<open>IW_ENCODING_TOKEN_MAX\<close> bytes, is
  parsed by \<open>iw_in_key_full\<close> (which gives the length, the parsed key and the flags it
  leaves), and when that yields a key the Open System flag is set for that method and
  the Restricted flag for every other.
\<close>

definition nm_device_set_enc_key ::
  "string option \<Rightarrow> NMDeviceAuthMethod \<Rightarrow> NMState \<Rightarrow> NMState" where
  "nm_device_set_enc_key key auth_method s =
     (if \<not> nm_device_is_wireless (dev s) then s
      else if test_device (dev s) then s
      else
        (let safe_key = (case key of None \<Rightarrow> [] | Some k \<Rightarrow> take IW_ENCODING_TOKEN_MAX k)
         in case iw_sockets_open s of
              (False, s1) \<Rightarrow> s1
            | (True, s1) \<Rightarrow>
                (if length safe_key = 0 then
                   klog (K_SIOCSIWENCODE
                           (IW_ENCODE_ENABLED OR (IW_ENCODE_DISABLED OR IW_ENCODE_NOKEY)) []) s1
                 else
                   (case k_in_key_full (kernel s1) (k_log (kernel s1)) safe_key of
                      (keylen, parsed_key, flags) \<Rightarrow>
                        (let s2 = klog (K_iw_in_key_full safe_key) s1
                         in if 0 < keylen then
                              klog (K_SIOCSIWENCODE
                                      (flags OR
                                         (case auth_method of
                                            NM_DEVICE_AUTH_METHOD_OPEN_SYSTEM \<Rightarrow> IW_ENCODE_OPEN
                                          | NM_DEVICE_AUTH_METHOD_SHARED_KEY \<Rightarrow> IW_ENCODE_RESTRICTED
                                          | _ \<Rightarrow> IW_ENCODE_RESTRICTED))
                                      parsed_key) s2
                            else s2)))))"

text \<open>
  \<open>nm_device_set_mode\<close>; only Infrastructure and Ad-Hoc are accepted.  No caller in the
  device code looks at its result, so the model gives the state only.
\<close>

definition nm_device_set_mode :: "NMNetworkMode \<Rightarrow> NMState \<Rightarrow> NMState" where
  "nm_device_set_mode m s =
     (if \<not> nm_device_is_wireless (dev s) then s
      else if \<not> (m = NETWORK_MODE_INFRA \<or> m = NETWORK_MODE_ADHOC) then s
      else
        (case iw_sockets_open s of
           (False, s1) \<Rightarrow> s1
         | (True, s1) \<Rightarrow> klog (K_SIOCSIWMODE m) s1))"

definition nm_device_set_bitrate :: "int \<Rightarrow> NMState \<Rightarrow> NMState" where
  "nm_device_set_bitrate KHz s =
     (if \<not> nm_device_is_wireless (dev s) then s
      else if test_device (dev s) then s
      else
        (case iw_sockets_open s of
           (False, s1) \<Rightarrow> s1
         | (True, s1) \<Rightarrow>
             (if KHz \<noteq> 0 then klog (K_SIOCSIWRATE (KHz * 1000) True) s1
              else klog (K_SIOCSIWRATE (-1) False) s1)))"

text \<open>C division truncates towards zero.\<close>

definition c_div :: "int \<Rightarrow> int \<Rightarrow> int" where
  "c_div a b = sgn a * sgn b * (\<bar>a\<bar> div \<bar>b\<bar>)"

definition nm_device_get_bitrate :: "NMState \<Rightarrow> int \<times> NMState" where
  "nm_device_get_bitrate s =
     (if \<not> nm_device_is_wireless (dev s) then (0, s)
      else if test_device (dev s) then (11, s)
      else
        (case iw_sockets_open s of
           (False, s1) \<Rightarrow> (0, s1)
         | (True, s1) \<Rightarrow>
             (let r = k_rate (kernel s1) (k_log (kernel s1));
                  s2 = klog K_SIOCGIWRATE s1
              in case r of
                   Some v \<Rightarrow> (c_div v 1000, s2)
                 | None \<Rightarrow> (0, s2))))"

definition nm_device_set_frequency :: "rat \<Rightarrow> NMState \<Rightarrow> NMState" where
  "nm_device_set_frequency f s =
     (if \<not> nm_device_is_wireless (dev s) then s
      else if test_device (dev s) then s
      else
        (case iw_sockets_open s of
           (False, s1) \<Rightarrow> s1
         | (True, s1) \<Rightarrow> klog (K_SIOCSIWFREQ f) s1))"

subsection \<open>Link state\<close>

definition nm_data_mark_state_changed :: "NMState \<Rightarrow> NMState" where
  "nm_data_mark_state_changed s = s\<lparr>app_data := (app_data s)\<lparr>state_changed := True\<rparr>\<rparr>"

text \<open>
  \<open>nm_device_wireless_is_associated\<close>: a test device answers with its link flag; a real
  one is associated when \<open>SIOCGIWNAME\<close> gives a name other than "unassociated", or
  else when \<open>SIOCGIWAP\<close> gives a valid address.
\<close>

definition nm_device_wireless_is_associated :: "NMState \<Rightarrow> bool \<times> NMState" where
  "nm_device_wireless_is_associated s =
     (if test_device (dev s) then (nm_device_get_link_active (dev s), s)
      else
        (case iw_sockets_open s of
           (False, s1) \<Rightarrow> (False, s1)
         | (True, s1) \<Rightarrow>
             (let n = k_iwname (kernel s1) (k_log (kernel s1));
                  s2 = klog K_SIOCGIWNAME s1;
                  associated = (case n of Some name \<Rightarrow> name \<noteq> ''unassociated'' | None \<Rightarrow> False)
              in if associated then (True, s2)
                 else
                   (let a = k_iwap (kernel s2) (k_log (kernel s2));
                        s3 = klog K_SIOCGIWAP s2
                    in (case a of
                          Some addr \<Rightarrow> (nm_ethernet_address_is_valid (utils s3) addr, s3)
                        | None \<Rightarrow> (False, s3))))))"

text \<open>
  \<open>nm_device_need_ap_switch\<close>: the ESSID of the card differs from the ESSID of the best
  access point (NULL without one).
\<close>

definition nm_device_need_ap_switch :: "NMState \<Rightarrow> bool \<times> NMState" where
  "nm_device_need_ap_switch s =
     (if \<not> nm_device_is_wireless (dev s) then (False, s)
      else
        (let ap = best_ap (dev s)
         in case nm_device_get_essid s of
              (essid, s1) \<Rightarrow>
                (\<not> nm_null_safe_strcmp_eq essid
                      (case ap of Some r \<Rightarrow> ap_essid (aps s r) | None \<Rightarrow> None), s1)))"

definition nm_device_wireless_link_active :: "NMState \<Rightarrow> bool \<times> NMState" where
  "nm_device_wireless_link_active s =
     (if test_device (dev s) then (nm_device_get_link_active (dev s), s)
      else
        (case nm_device_wireless_is_associated s of
           (False, s1) \<Rightarrow> (False, s1)
         | (True, s1) \<Rightarrow>
             (case best_ap (dev s1) of
                Some r \<Rightarrow>
                  (case nm_device_need_ap_switch s1 of (need, s2) \<Rightarrow> (\<not> need, s2))
              | None \<Rightarrow> (False, s1))))"

text \<open>
  \<open>nm_device_wired_link_active\<close>: the MII registers or the property store are probed;
  the answer is the environment's.
\<close>

definition nm_device_wired_link_active :: "bool \<Rightarrow> NMState \<Rightarrow> bool \<times> NMState" where
  "nm_device_wired_link_active check_mii s =
     (if test_device (dev s) then (nm_device_get_link_active (dev s), s)
      else (k_wired_link (kernel s) (k_log (kernel s)), klog (K_wired_link_probe check_mii) s))"

text \<open>
  \<open>nm_device_update_signal_strength\<close>.  The statistics call gives the maximum quality,
  the noise and the percentage computed from the quality; up to three invalid
  readings in a row repeat the last strength.
\<close>

definition nm_device_update_signal_strength :: "NMState \<Rightarrow> NMState" where
  "nm_device_update_signal_strength s =
     (if \<not> nm_device_is_wireless (dev s) then s
      else if \<not> is_active_device (app_data s) then s\<lparr>dev := (dev s)\<lparr>strength := -1\<rparr>\<rparr>
      else if test_device (dev s) then s\<lparr>dev := (dev s)\<lparr>strength := 75\<rparr>\<rparr>
      else
        (let s1 = klog K_socket s;
             s2 = klog K_iw_get_range_info s1;
             st = k_stats (kernel s2) (k_log (kernel s2));
             s3 = klog K_iw_get_stats s2;
             (s4, percent) =
               (case st of
                  Some (mq, nz, pc) \<Rightarrow> (s3\<lparr>dev := (dev s3)\<lparr>max_quality := mq, noise := nz\<rparr>\<rparr>, pc)
                | None \<Rightarrow> (s3\<lparr>dev := (dev s3)\<lparr>max_quality := -1, noise := -1\<rparr>\<rparr>, -1));
             (s5, percent') =
               (if percent = -1 then
                  (let c = invalid_strength_counter (dev s4) + 1;
                       s4' = s4\<lparr>dev := (dev s4)\<lparr>invalid_strength_counter := c\<rparr>\<rparr>
                   in if c \<le> 3 then (s4', strength (dev s4'))
                      else (s4'\<lparr>dev := (dev s4')\<lparr>invalid_strength_counter := 0\<rparr>\<rparr>, percent))
                else (s4\<lparr>dev := (dev s4)\<lparr>invalid_strength_counter := 0\<rparr>\<rparr>, percent))
         in s5\<lparr>dev := (dev s5)\<lparr>strength := percent'\<rparr>\<rparr>))"

definition nm_device_update_link_active :: "bool \<Rightarrow> NMState \<Rightarrow> NMState" where
  "nm_device_update_link_active check_mii s =
     (case (case dev_type (dev s) of
              DEVICE_TYPE_WIRELESS_ETHERNET \<Rightarrow>
                (case nm_device_wireless_link_active s of
                   (l, s1) \<Rightarrow> (l, nm_device_update_signal_strength s1))
            | DEVICE_TYPE_WIRED_ETHERNET \<Rightarrow> nm_device_wired_link_active check_mii s
            | DEVICE_TYPE_DONT_KNOW \<Rightarrow> (nm_device_get_link_active (dev s), s)) of
        (link, s2) \<Rightarrow>
          (if link \<noteq> nm_device_get_link_active (dev s2)
           then nm_data_mark_state_changed (s2\<lparr>dev := (dev s2)\<lparr>link_active := link\<rparr>\<rparr>)
           else s2))"

section \<open>The best access point\<close>

text \<open>
  \<open>nm_device_get_best_ap\<close> and \<open>nm_device_set_best_ap\<close>; setting it clears the freeze
  flag.  (The reference counts of access points only manage memory and are not
  modelled; a reference stays valid for good.)
\<close>

definition nm_device_get_best_ap :: "NMState \<Rightarrow> ap_ref option" where
  "nm_device_get_best_ap s =
     (if \<not> nm_device_is_wireless (dev s) then None else best_ap (dev s))"

definition nm_device_unfreeze_best_ap :: "NMState \<Rightarrow> NMState" where
  "nm_device_unfreeze_best_ap s =
     (if \<not> nm_device_is_wireless (dev s) then s
      else s\<lparr>dev := (dev s)\<lparr>freeze_best_ap := False\<rparr>\<rparr>)"

definition nm_device_freeze_best_ap :: "NMState \<Rightarrow> NMState" where
  "nm_device_freeze_best_ap s =
     (if \<not> nm_device_is_wireless (dev s) then s
      else s\<lparr>dev := (dev s)\<lparr>freeze_best_ap := True\<rparr>\<rparr>)"

definition nm_device_is_best_ap_frozen :: "NMState \<Rightarrow> bool" where
  "nm_device_is_best_ap_frozen s =
     (if \<not> nm_device_is_wireless (dev s) then False else freeze_best_ap (dev s))"

definition nm_device_set_best_ap :: "ap_ref option \<Rightarrow> NMState \<Rightarrow> NMState" where
  "nm_device_set_best_ap ap s =
     (if \<not> nm_device_is_wireless (dev s) then s
      else nm_device_unfreeze_best_ap (s\<lparr>dev := (dev s)\<lparr>best_ap := ap\<rparr>\<rparr>))"

subsection \<open>Access point lists\<close>

text \<open>
  Modelled from the spec: the operations on access point lists and records (their
  sources are not at hand).  \<open>get_by_essid\<close> returns an access point iff some access
  point of the list has that ESSID, here the first one; a NULL ESSID finds nothing.
  \<open>nm_ap_new_from_ap\<close> allocates a copy.  An append to the invalid list is the
  parameter \<open>nm_ap_list_append_ap\<close> applied to that list.
\<close>

definition nm_ap_list_get_ap_by_essid ::
  "NMState \<Rightarrow> ap_ref list \<Rightarrow> string option \<Rightarrow> ap_ref option" where
  "nm_ap_list_get_ap_by_essid s l network =
     (case network of
        None \<Rightarrow> None
      | Some e \<Rightarrow> find (\<lambda>r. ap_essid (aps s r) = Some e) l)"

definition nm_ap_list_get_ap_by_address ::
  "NMState \<Rightarrow> ap_ref list \<Rightarrow> ether_addr \<Rightarrow> ap_ref option" where
  "nm_ap_list_get_ap_by_address s l addr =
     find (\<lambda>r. ap_address (aps s r) = Some addr) l"

definition nm_ap_new_from_ap :: "ap_ref \<Rightarrow> NMState \<Rightarrow> ap_ref \<times> NMState" where
  "nm_ap_new_from_ap src s =
     (ap_next s, s\<lparr>aps := (aps s)(ap_next s := aps s src), ap_next := ap_next s + 1\<rparr>)"

definition invalid_list_append_ap :: "ap_ref \<Rightarrow> NMState \<Rightarrow> NMState" where
  "invalid_list_append_ap r s =
     s\<lparr>app_data := (app_data s)\<lparr>invalid_ap_list :=
         nm_ap_list_append_ap (utils s) (aps s) (invalid_ap_list (app_data s)) r\<rparr>\<rparr>"

definition nm_ap_set_enc_key_source ::
  "ap_ref \<Rightarrow> string option \<Rightarrow> NMEncKeyType \<Rightarrow> NMState \<Rightarrow> NMState" where
  "nm_ap_set_enc_key_source r key method s =
     s\<lparr>aps := (aps s)(r := (aps s r)\<lparr>ap_enc_key_source := key, ap_enc_method := method\<rparr>)\<rparr>"

definition nm_ap_set_invalid :: "ap_ref \<Rightarrow> bool \<Rightarrow> NMState \<Rightarrow> NMState" where
  "nm_ap_set_invalid r v s = s\<lparr>aps := (aps s)(r := (aps s r)\<lparr>ap_invalid := v\<rparr>)\<rparr>"

text \<open>\<open>nm_device_ap_list_get_ap_by_essid\<close>: the lookup in the device's own list.\<close>

definition nm_device_ap_list_get_ap_by_essid :: "NMState \<Rightarrow> string option \<Rightarrow> ap_ref option" where
  "nm_device_ap_list_get_ap_by_essid s essid =
     (if \<not> nm_device_is_wireless (dev s) then None
      else case essid of
             None \<Rightarrow> None
           | Some e \<Rightarrow>
               (case ap_list (dev s) of
                  None \<Rightarrow> None
                | Some l \<Rightarrow> nm_ap_list_get_ap_by_essid s l essid))"

subsection \<open>Recomputing the best access point\<close>

text \<open>
  The four running variables of the loop in \<open>nm_device_update_best_ap\<close>; both
  timestamps start at \<open>{0, 0}\<close>.
\<close>

record best_ap_vars =
  trusted_best_ap :: "ap_ref option"
  untrusted_best_ap :: "ap_ref option"
  trusted_latest_timestamp :: "int \<times> int"
  untrusted_latest_timestamp :: "int \<times> int"

definition best_ap_vars_init :: best_ap_vars where
  "best_ap_vars_init = \<lparr> trusted_best_ap = None, untrusted_best_ap = None,
     trusted_latest_timestamp = (0, 0), untrusted_latest_timestamp = (0, 0) \<rparr>"

text \<open>
  The loop over the device's list.  An access point whose ESSID is in the invalid list
  is skipped; one whose ESSID is in the allowed list becomes the trusted (or the
  untrusted) best when the seconds of the allowed entry's timestamp exceed the latest
  seen so far, and then receives the allowed entry's key.
\<close>

fun update_best_ap_loop :: "ap_ref list \<Rightarrow> best_ap_vars \<Rightarrow> NMState \<Rightarrow> best_ap_vars \<times> NMState" where
  "update_best_ap_loop [] v s = (v, s)"
| "update_best_ap_loop (scan_ap # rest) v s =
     (let ap_essid = ap_essid (aps s scan_ap) in
      if nm_ap_list_get_ap_by_essid s (invalid_ap_list (app_data s)) ap_essid \<noteq> None
      then update_best_ap_loop rest v s
      else
        (case nm_ap_list_get_ap_by_essid s (allowed_ap_list (app_data s)) ap_essid of
           None \<Rightarrow> update_best_ap_loop rest v s
         | Some tmp_ap \<Rightarrow>
             (let curtime = ap_timestamp (aps s tmp_ap) in
              if ap_trusted (aps s tmp_ap) \<and> fst curtime > fst (trusted_latest_timestamp v)
              then update_best_ap_loop rest
                     (v\<lparr>trusted_latest_timestamp := ap_timestamp (aps s tmp_ap),
                        trusted_best_ap := Some scan_ap\<rparr>)
                     (nm_ap_set_enc_key_source scan_ap (ap_enc_key_source (aps s tmp_ap))
                        (ap_enc_method (aps s tmp_ap)) s)
              else if \<not> ap_trusted (aps s tmp_ap)
                      \<and> fst curtime > fst (untrusted_latest_timestamp v)
              then update_best_ap_loop rest
                     (v\<lparr>untrusted_latest_timestamp := ap_timestamp (aps s tmp_ap),
                        untrusted_best_ap := Some scan_ap\<rparr>)
                     (nm_ap_set_enc_key_source scan_ap (ap_enc_key_source (aps s tmp_ap))
                        (ap_enc_method (aps s tmp_ap)) s)
              else update_best_ap_loop rest v s)))"

text \<open>
  The part of \<open>nm_device_update_best_ap\<close> after the freeze test: the loop, the choice
  of the trusted best before the untrusted one, and the reset of the radio when there
  is none.
\<close>

definition update_best_ap_select :: "ap_ref list \<Rightarrow> NMState \<Rightarrow> NMState" where
  "update_best_ap_select l s =
     (case update_best_ap_loop l best_ap_vars_init s of
        (v, s1) \<Rightarrow>
          (let best = (case trusted_best_ap v of Some r \<Rightarrow> Some r | None \<Rightarrow> untrusted_best_ap v);
               s2 = nm_device_set_best_ap best s1
           in case best of
                Some r \<Rightarrow> s2
              | None \<Rightarrow>
                  nm_device_bring_up
                    (nm_device_set_enc_key None NM_DEVICE_AUTH_METHOD_NONE
                       (nm_device_set_essid (Some '' '') s2))))"

text \<open>
  The test made when the best access point is frozen: it is kept when its ESSID is
  not in the invalid list and is in the device's list, or when it is user-created.
\<close>

definition frozen_best_ap_kept :: "NMState \<Rightarrow> bool" where
  "frozen_best_ap_kept s =
     (case nm_device_get_best_ap s of
        None \<Rightarrow> False
      | Some b \<Rightarrow>
          (nm_ap_list_get_ap_by_essid s (invalid_ap_list (app_data s)) (ap_essid (aps s b)) = None
             \<and> nm_device_ap_list_get_ap_by_essid s (ap_essid (aps s b)) \<noteq> None)
          \<or> ap_user_created (aps s b))"

definition nm_device_update_best_ap :: "NMState \<Rightarrow> NMState" where
  "nm_device_update_best_ap s =
     (if \<not> nm_device_is_wireless (dev s) then s
      else
        (case ap_list (dev s) of
           None \<Rightarrow> s
         | Some l \<Rightarrow>
             (if nm_device_is_best_ap_frozen s then
                (if frozen_best_ap_kept s then s
                 else update_best_ap_select l (nm_device_unfreeze_best_ap s))
              else update_best_ap_select l s)))"

text \<open>The reset of the radio made when no best access point is left.\<close>

definition radio_reset :: "NMState \<Rightarrow> NMState" where
  "radio_reset s = nm_device_bring_up
                    (nm_device_set_enc_key None NM_DEVICE_AUTH_METHOD_NONE
                       (nm_device_set_essid (Some '' '') s))"

text \<open>
  The allowed entry that makes a visible access point a candidate: none when the
  access point's ESSID is in the invalid list, else the allowed entry with its ESSID.
  A candidate's seconds are those of the allowed entry's timestamp, by trust class.
\<close>

definition allowed_match :: "NMState \<Rightarrow> ap_ref \<Rightarrow> ap_ref option" where
  "allowed_match s r =
     (if nm_ap_list_get_ap_by_essid s (invalid_ap_list (app_data s)) (ap_essid (aps s r)) \<noteq> None
      then None
      else nm_ap_list_get_ap_by_essid s (allowed_ap_list (app_data s)) (ap_essid (aps s r)))"

definition candidate_seconds :: "NMState \<Rightarrow> bool \<Rightarrow> ap_ref \<Rightarrow> int option" where
  "candidate_seconds s tr r =
     (case allowed_match s r of
        None \<Rightarrow> None
      | Some t \<Rightarrow> if ap_trusted (aps s t) = tr then Some (fst (ap_timestamp (aps s t))) else None)"

text \<open>
  For the proofs about the loop: the key of an access point, the copy of a key, states
  that differ in keys only, the origin of every key, and the running maximum the loop
  computes.
\<close>

definition keyof :: "NMState \<Rightarrow> ap_ref \<Rightarrow> string option \<times> NMEncKeyType" where
  "keyof s x = (ap_enc_key_source (aps s x), ap_enc_method (aps s x))"

definition copy_key :: "ap_ref \<Rightarrow> ap_ref \<Rightarrow> NMState \<Rightarrow> NMState" where
  "copy_key x t s =
     nm_ap_set_enc_key_source x (ap_enc_key_source (aps s t)) (ap_enc_method (aps s t)) s"

definition veq :: "NMState \<Rightarrow> NMState \<Rightarrow> bool" where
  "veq s0 s = (dev s = dev s0 \<and> app_data s = app_data s0
     \<and> (\<forall>x. ap_essid (aps s x) = ap_essid (aps s0 x)
            \<and> ap_trusted (aps s x) = ap_trusted (aps s0 x)
            \<and> ap_timestamp (aps s x) = ap_timestamp (aps s0 x)
            \<and> ap_invalid (aps s x) = ap_invalid (aps s0 x)))"

definition keys_from_match :: "NMState \<Rightarrow> NMState \<Rightarrow> bool" where
  "keys_from_match s0 s =
     (\<forall>x. keyof s x = keyof s0 x
          \<or> (\<exists>t. allowed_match s0 x = Some t \<and> keyof s x = keyof s0 t))"

definition best_has_key :: "NMState \<Rightarrow> ap_ref option \<Rightarrow> NMState \<Rightarrow> bool" where
  "best_has_key s0 b s =
     (\<forall>r. b = Some r \<longrightarrow> (\<exists>t. allowed_match s0 r = Some t \<and> keyof s r = keyof s0 t))"

fun run_max :: "(ap_ref \<Rightarrow> int option) \<Rightarrow> ap_ref list \<Rightarrow> ap_ref option \<times> int \<Rightarrow> ap_ref option \<times> int" where
  "run_max f [] bm = bm"
| "run_max f (x # xs) (b, m) =
     (case f x of
        Some n \<Rightarrow> if n > m then run_max f xs (Some x, n) else run_max f xs (b, m)
      | None \<Rightarrow> run_max f xs (b, m))"

section \<open>The user's key\<close>

definition cancel_message :: string where
  "cancel_message = ''***canceled***''"

text \<open>
  \<open>strncmp (a, b, n) == 0\<close> on strings without embedded NUL: the first \<open>n\<close> bytes of
  both agree, each string ending where it ends.
\<close>

definition strncmp_eq :: "string \<Rightarrow> string \<Rightarrow> nat \<Rightarrow> bool" where
  "strncmp_eq a b n = (take n a = take n b)"

text \<open>
  \<open>nm_device_set_user_key_for_network\<close>.  \<open>invalid_list\<close> tells whether the caller
  passed the process-wide invalid list or NULL.
\<close>

definition nm_device_set_user_key_for_network ::
  "bool \<Rightarrow> string \<Rightarrow> string \<Rightarrow> NMEncKeyType \<Rightarrow> NMState \<Rightarrow> NMState" where
  "nm_device_set_user_key_for_network invalid_list network key enc_method s =
     (if \<not> nm_device_is_wireless (dev s) then s
      else
        (let s1 =
           (if strncmp_eq key cancel_message (length cancel_message) then
              (let s2 =
                 (case nm_device_ap_list_get_ap_by_essid s (Some network) of
                    Some ap \<Rightarrow>
                      (case nm_ap_new_from_ap ap s of
                         (invalid_ap, s3) \<Rightarrow>
                           (if invalid_list then invalid_list_append_ap invalid_ap s3 else s3))
                  | None \<Rightarrow> s)
               in nm_device_update_best_ap s2)
            else
              (case nm_device_get_best_ap s of
                 Some best \<Rightarrow>
                   (if nm_null_safe_strcmp_eq (Some network) (ap_essid (aps s best))
                    then nm_ap_set_enc_key_source best (Some key) enc_method s
                    else s)
               | None \<Rightarrow> s))
         in s1\<lparr>dev := (dev s1)\<lparr>user_key_received := True\<rparr>\<rparr>))"

section \<open>Probing for a network by its ESSID\<close>

text \<open>
  The running variables of \<open>nm_device_wireless_network_exists\<close>: the result, the
  encryption used by the probe under way, and the contents of the caller's two output
  buffers.
\<close>

record exists_vars =
  ev_success :: bool
  ev_temp_enc :: bool
  ev_ap_addr :: ether_addr
  ev_encrypted :: bool

text \<open>
  One round of the loop over the authentication methods: set the key for the method,
  set the ESSID, pause, refresh the link state, and record a success when the card is
  associated and has an ESSID.  Nothing in the round looks at \<open>success\<close>: the next
  round follows in any case.
\<close>

definition network_exists_probe ::
  "string \<Rightarrow> string option \<Rightarrow> NMEncKeyType \<Rightarrow> NMDeviceAuthMethod \<Rightarrow> exists_vars \<Rightarrow> NMState
     \<Rightarrow> exists_vars \<times> NMState" where
  "network_exists_probe network key key_type auth v s =
     (let (v1, s1) =
        (if auth = NM_DEVICE_AUTH_METHOD_SHARED_KEY \<or> auth = NM_DEVICE_AUTH_METHOD_OPEN_SYSTEM
         then
           (v\<lparr>ev_temp_enc := True\<rparr>,
            (case key of
               Some k \<Rightarrow>
                 (if key_type \<noteq> NM_ENC_TYPE_UNKNOWN then
                    nm_device_set_enc_key
                      (Some (case key_type of
                               NM_ENC_TYPE_128_BIT_PASSPHRASE \<Rightarrow>
                                 nm_wireless_128bit_key_from_passphrase (utils s) k
                             | NM_ENC_TYPE_ASCII_KEY \<Rightarrow>
                                 (if length k \<le> 5 then nm_wireless_64bit_ascii_to_hex (utils s) k
                                  else nm_wireless_128bit_ascii_to_hex (utils s) k)
                             | NM_ENC_TYPE_HEX_KEY \<Rightarrow> k
                             | NM_ENC_TYPE_UNKNOWN \<Rightarrow> k))
                      auth s
                  else nm_device_set_enc_key (Some ''11111111111111111111111111'') auth s)
             | None \<Rightarrow> nm_device_set_enc_key (Some ''11111111111111111111111111'') auth s))
         else (v\<lparr>ev_temp_enc := False\<rparr>, nm_device_set_enc_key None auth s));
          s2 = nm_device_set_essid (Some network) s1;
          s3 = g_usleep (G_USEC_PER_SEC * nm_device_get_association_pause_value (dev s2)) s2;
          s4 = nm_device_update_link_active False s3
      in case nm_device_wireless_is_associated s4 of
           (False, s5) \<Rightarrow> (v1, s5)
         | (True, s5) \<Rightarrow>
             (case nm_device_get_essid s5 of
                (None, s6) \<Rightarrow> (v1, s6)
              | (Some e, s6) \<Rightarrow>
                  (case nm_device_get_ap_address (ev_ap_addr v1) s6 of
                     (a, s7) \<Rightarrow>
                       (v1\<lparr>ev_ap_addr := a, ev_success := True,
                           ev_encrypted := ev_temp_enc v1\<rparr>, s7))))"

fun network_exists_loop ::
  "string \<Rightarrow> string option \<Rightarrow> NMEncKeyType \<Rightarrow> NMDeviceAuthMethod list \<Rightarrow> exists_vars \<Rightarrow> NMState
     \<Rightarrow> exists_vars \<times> NMState" where
  "network_exists_loop network key key_type [] v s = (v, s)"
| "network_exists_loop network key key_type (auth # auths) v s =
     (case network_exists_probe network key key_type auth v s of
        (v1, s1) \<Rightarrow> network_exists_loop network key key_type auths v1 s1)"

text \<open>
  The order of the methods: Shared Key, Open System, None; or None first when the
  access point is in the device's list and known not to be encrypted.
\<close>

definition network_exists_auths :: "NMState \<Rightarrow> ap_ref option \<Rightarrow> NMDeviceAuthMethod list" where
  "network_exists_auths s ap =
     (case ap of
        Some r \<Rightarrow>
          if \<not> ap_encrypted (aps s r)
          then [NM_DEVICE_AUTH_METHOD_NONE, NM_DEVICE_AUTH_METHOD_SHARED_KEY,
                NM_DEVICE_AUTH_METHOD_OPEN_SYSTEM]
          else [NM_DEVICE_AUTH_METHOD_SHARED_KEY, NM_DEVICE_AUTH_METHOD_OPEN_SYSTEM,
                NM_DEVICE_AUTH_METHOD_NONE]
      | None \<Rightarrow>
          [NM_DEVICE_AUTH_METHOD_SHARED_KEY, NM_DEVICE_AUTH_METHOD_OPEN_SYSTEM,
           NM_DEVICE_AUTH_METHOD_NONE])"

text \<open>
  \<open>nm_device_wireless_network_exists\<close>: the result, the contents of \<open>*ap_addr\<close> and of
  \<open>*encrypted\<close> afterwards (given their contents before), and the state.  An empty
  network name is refused before anything is written.
\<close>

definition nm_device_wireless_network_exists ::
  "string \<Rightarrow> string option \<Rightarrow> NMEncKeyType \<Rightarrow> ether_addr \<Rightarrow> bool \<Rightarrow> NMState
     \<Rightarrow> (bool \<times> ether_addr \<times> bool) \<times> NMState" where
  "nm_device_wireless_network_exists network key key_type ap_addr encrypted s =
     (if length network = 0 then ((False, ap_addr, encrypted), s)
      else
        (let v0 = \<lparr> ev_success = False, ev_temp_enc = False, ev_ap_addr = ap_addr,
                     ev_encrypted = False \<rparr>;
             s1 = g_usleep (G_USEC_PER_SEC * 4) (nm_device_bring_up s);
             ap = (if \<not> nm_device_is_wireless (dev s1) then None
                   else case ap_list (dev s1) of
                          None \<Rightarrow> None
                        | Some l \<Rightarrow> nm_ap_list_get_ap_by_essid s1 l (Some network));
             mode = (case ap of Some r \<Rightarrow> ap_mode (aps s1 r) | None \<Rightarrow> NETWORK_MODE_INFRA);
             auths = network_exists_auths s1 ap;
             (v2, s2) =
               (if mode = NETWORK_MODE_ADHOC then
                  (case ap of Some r \<Rightarrow> (v0\<lparr>ev_success := True\<rparr>, s1) | None \<Rightarrow> (v0, s1))
                else if mode = NETWORK_MODE_INFRA then
                  network_exists_loop network key key_type auths v0 (nm_device_set_mode mode s1)
                else (v0, s1));
             v3 = (case ap of
                     Some r \<Rightarrow> v2\<lparr>ev_encrypted := ap_encrypted (aps s2 r)\<rparr>
                   | None \<Rightarrow> v2)
         in ((ev_success v3, ev_ap_addr v3, ev_encrypted v3), s2)))"

section \<open>Activating a wireless device\<close>

text \<open>
  \<open>nm_device_set_wireless_config\<close>: the reset of the radio and its configuration for an
  access point with an authentication method, the association pause, and the refresh
  of the link state.  It refuses a device that is not wireless and an access point
  without an ESSID.  The body is cut into the paragraphs of the source: the card is
  forced into infrastructure mode; mode, bit rate and frequency are set from the access
  point; encryption is disabled and set again with the access point's key; the ESSID is
  set and the card is given time to associate; the bit rate is clamped in ad-hoc mode.
\<close>

definition wireless_config_force_infra :: "NMState \<Rightarrow> NMState" where
  "wireless_config_force_infra s =
     (let s1 = nm_device_bring_down s;
          s2 = g_usleep (G_USEC_PER_SEC * 4) s1;
          s3 = nm_device_bring_up s2;
          s4 = g_usleep (G_USEC_PER_SEC * 2) s3;
          s5 = nm_device_set_mode NETWORK_MODE_INFRA s4
      in nm_device_set_essid (Some '' '') s5)"

definition wireless_config_channel :: "ap_ref \<Rightarrow> NMState \<Rightarrow> NMState" where
  "wireless_config_channel ap s =
     (let s1 = nm_device_set_mode (ap_mode (aps s ap)) s;
          s2 = nm_device_set_bitrate 0 s1
      in if ap_user_created (aps s2 ap)
            \<or> (ap_freq (aps s2 ap) \<noteq> 0 \<and> ap_mode (aps s2 ap) = NETWORK_MODE_ADHOC)
         then nm_device_set_frequency (ap_freq (aps s2 ap)) s2 else s2)"

definition wireless_config_key :: "ap_ref \<Rightarrow> NMDeviceAuthMethod \<Rightarrow> NMState \<Rightarrow> NMState" where
  "wireless_config_key ap auth s =
     (let s1 = nm_device_set_enc_key None NM_DEVICE_AUTH_METHOD_NONE s
      in if ap_encrypted (aps s1 ap) \<and> ap_enc_key_source (aps s1 ap) \<noteq> None
         then nm_device_set_enc_key
                (Some (nm_ap_get_enc_key_hashed (utils s1) (aps s1 ap))) auth s1
         else s1)"

definition wireless_config_associate :: "string option \<Rightarrow> NMState \<Rightarrow> NMState" where
  "wireless_config_associate essid s =
     (let s1 = nm_device_set_essid essid s
      in g_usleep (G_USEC_PER_SEC * nm_device_get_association_pause_value (dev s1)) s1)"

definition wireless_config_adhoc_rate :: "ap_ref \<Rightarrow> NMState \<Rightarrow> NMState" where
  "wireless_config_adhoc_rate ap s =
     (if ap_mode (aps s ap) = NETWORK_MODE_ADHOC
      then (case nm_device_get_bitrate s of
              (rate, s1) \<Rightarrow> if rate \<le> 0 then nm_device_set_bitrate 11000 s1 else s1)
      else s)"

definition nm_device_set_wireless_config ::
  "ap_ref \<Rightarrow> NMDeviceAuthMethod \<Rightarrow> NMState \<Rightarrow> bool \<times> NMState" where
  "nm_device_set_wireless_config ap auth s =
     (if \<not> nm_device_is_wireless (dev s) then (False, s)
      else if ap_essid (aps s ap) = None then (False, s)
      else
        (let s1 = wireless_config_force_infra s;
             essid = ap_essid (aps s1 ap);
             s2 = wireless_config_channel ap s1;
             s3 = wireless_config_key ap auth s2;
             s4 = wireless_config_associate essid s3;
             s5 = wireless_config_adhoc_rate ap s4
         in (True, nm_device_update_link_active False s5)))"

text \<open>
  \<open>nm_device_activation_configure_ip\<close>.  The route, auto-IP, DHCP and static
  configuration helpers are collaborators: their calls are logged and their answers
  are the environment's.  When DHCP does not bind, a wireless device's ESSID and key
  are cleared and the device is brought up if it is not.
\<close>

definition nm_device_activation_configure_ip :: "bool \<Rightarrow> NMState \<Rightarrow> bool \<times> NMState" where
  "nm_device_activation_configure_ip do_only_autoip s =
     (let s1 = klog K_delete_default_route s;
          (success, s2) =
            (if do_only_autoip then
               (k_autoip_ok (kernel s1) (k_log (kernel s1)), klog K_do_autoip s1)
             else if use_dhcp (dev s1) then
               (let bound = k_dhcp_bound (kernel s1) (k_log (kernel s1));
                    s1a = klog K_dhcp_request s1
                in if bound then (True, s1a)
                   else
                     (let s1b = (if nm_device_is_wireless (dev s1a)
                                 then nm_device_set_enc_key None NM_DEVICE_AUTH_METHOD_NONE
                                        (nm_device_set_essid (Some []) s1a)
                                 else s1a)
                      in case nm_device_is_up s1b of
                           (up, s1c) \<Rightarrow> (False, if \<not> up then nm_device_bring_up s1c else s1c)))
             else
               (k_static_ok (kernel s1) (k_log (kernel s1)), klog K_setup_static_ip4_config s1))
      in if success
         then (True, klog K_restart_mdns_responder (klog K_flush_arp_cache s2))
         else (False, s2))"

definition AP_NEED_KEY :: "NMAccessPoint \<Rightarrow> bool" where
  "AP_NEED_KEY ap =
     (ap_encrypted ap
      \<and> (case ap_enc_key_source ap of None \<Rightarrow> True | Some k \<Rightarrow> length k = 0))"

definition HAVE_LINK :: "NMState \<Rightarrow> bool" where
  "HAVE_LINK s = (nm_device_is_wireless (dev s) \<and> nm_device_get_link_active (dev s))"

text \<open>
  \<open>nm_device_activation_handle_cancel\<close>: whether activation was told to quit; if so the
  flags are reset.
\<close>

definition nm_device_activation_handle_cancel :: "NMState \<Rightarrow> bool \<times> NMState" where
  "nm_device_activation_handle_cancel s =
     (if quit_activation (dev s)
      then (True, s\<lparr>dev := (dev s)\<lparr>activating := False, quit_activation := False\<rparr>\<rparr>)
      else (False, s))"

definition nm_dbus_get_user_key_for_network :: "ap_ref \<Rightarrow> 8 word \<Rightarrow> NMState \<Rightarrow> NMState" where
  "nm_dbus_get_user_key_for_network ap attempt s =
     s\<lparr>dbus := dbus s @ [Get_user_key_for_network ap attempt]\<rparr>"

text \<open>
  \<open>nm_device_activate_wireless\<close> runs beside the threads that deliver the user's key,
  update the best access point and cancel the activation, and it waits for them in
  polling loops.  It is modelled as a machine: a control point, the local variables
  and the state; one step runs from a control point to the next.  The control points
  are the function's entry, the label \<open>get_ap\<close>, the two polling loops after their
  sleep, the head of the loop over the authentication methods, a crash (\<open>strcmp\<close> on
  an access point without ESSID), and the return.  What the other threads do between
  two steps is given to a run as a list of changes of the state.
\<close>

datatype aw_pc = AW_start | AW_get_ap | AW_wait_ap | AW_wait_key | AW_auth_loop | AW_crash | AW_done

record aw_locals =
  aw_best_ap :: "ap_ref option"
  aw_success :: bool
  aw_attempt :: "8 word"
  aw_last_essid :: string
  aw_auth :: NMDeviceAuthMethod
  aw_need_key :: bool

type_synonym aw_config = "aw_pc \<times> aw_locals \<times> NMState"


text \<open>The label \<open>out\<close>: the scanning flag is cleared and the function returns.\<close>

definition aw_out :: "aw_locals \<Rightarrow> NMState \<Rightarrow> aw_config" where
  "aw_out l s = (AW_done, l, s\<lparr>dev := (dev s)\<lparr>now_scanning := False\<rparr>\<rparr>)"

text \<open>
  An access point that cannot be used: it is marked invalid and appended to the
  invalid list, the best access point is recomputed, and control goes to \<open>get_ap\<close>.
\<close>

definition aw_invalidate :: "ap_ref \<Rightarrow> aw_locals \<Rightarrow> NMState \<Rightarrow> aw_config" where
  "aw_invalidate best l s =
     (AW_get_ap, l,
      nm_device_update_best_ap (invalid_list_append_ap best (nm_ap_set_invalid best True s)))"

text \<open>
  The test of the loop that waits for the key, \<open>while (!user_key_received &&
  !quit_activation)\<close>, and what follows the loop: a cancelled activation returns, any
  other goes back to \<open>get_ap\<close>.
\<close>

definition aw_key_wait :: "aw_locals \<Rightarrow> NMState \<Rightarrow> aw_config" where
  "aw_key_wait l s =
     (if \<not> user_key_received (dev s) \<and> \<not> quit_activation (dev s)
      then (AW_wait_key, l, g_usleep (G_USEC_PER_SEC div 2) s)
      else
        (case nm_device_activation_handle_cancel s of
           (True, s1) \<Rightarrow> aw_out l s1
         | (False, s1) \<Rightarrow> (AW_get_ap, l, s1)))"

text \<open>
  The label \<open>need_key\<close>.  When a key is needed, the attempt counter restarts at 1 if the
  ESSID differs from the last one asked for, the key is requested with the counter's
  value, the counter is incremented, and the wait begins.  Otherwise the loop over
  the authentication methods is entered.
\<close>

definition aw_need_key_label :: "ap_ref \<Rightarrow> aw_locals \<Rightarrow> NMState \<Rightarrow> aw_config" where
  "aw_need_key_label best l s =
     (if aw_need_key l then
        (case ap_essid (aps s best) of
           None \<Rightarrow> (AW_crash, l, s)
         | Some essid \<Rightarrow>
             (let l1 = (if essid \<noteq> aw_last_essid l then l\<lparr>aw_attempt := 1\<rparr> else l);
                  l2 = l1\<lparr>aw_last_essid := take 49 essid\<rparr>;
                  s1 = s\<lparr>dev := (dev s)\<lparr>user_key_received := False\<rparr>\<rparr>;
                  s2 = nm_dbus_get_user_key_for_network best (aw_attempt l2) s1;
                  l3 = l2\<lparr>aw_attempt := aw_attempt l2 + 1, aw_need_key := False\<rparr>
              in aw_key_wait l3 s2))
      else (AW_auth_loop, l, s))"

text \<open>
  What follows the loop that waits for an access point, once there is a best one.
  An unencrypted access point is configured without authentication; an encrypted one
  starts at Shared Key and asks for a key if it has none.
\<close>

definition aw_have_ap :: "ap_ref \<Rightarrow> aw_locals \<Rightarrow> NMState \<Rightarrow> aw_config" where
  "aw_have_ap best l0 s0 =
     (let l = l0\<lparr>aw_best_ap := Some best\<rparr>;
          s = s0\<lparr>dev := (dev s0)\<lparr>now_scanning := False\<rparr>\<rparr>
      in if \<not> ap_encrypted (aps s best) then
           (case nm_device_set_wireless_config best NM_DEVICE_AUTH_METHOD_NONE s of
              (ok, s1) \<Rightarrow>
                if ap_mode (aps s1 best) = NETWORK_MODE_ADHOC then
                  (case nm_device_activation_configure_ip True s1 of
                     (ip, s2) \<Rightarrow> aw_out (l\<lparr>aw_success := ip\<rparr>) s2)
                else if \<not> HAVE_LINK s1 then aw_invalidate best l s1
                else
                  (case nm_device_activation_configure_ip False s1 of
                     (False, s2) \<Rightarrow> aw_invalidate best l s2
                   | (True, s2) \<Rightarrow> aw_out (l\<lparr>aw_success := True\<rparr>) s2))
         else
           aw_need_key_label best
             (l\<lparr>aw_auth := NM_DEVICE_AUTH_METHOD_SHARED_KEY,
                aw_need_key := AP_NEED_KEY (aps s best)\<rparr>) s)"

text \<open>
  The test of the loop that waits for an access point,
  \<open>while (!(best_ap = nm_device_get_best_ap (dev)))\<close>.
\<close>

definition aw_ap_wait :: "aw_locals \<Rightarrow> NMState \<Rightarrow> aw_config" where
  "aw_ap_wait l s =
     (case nm_device_get_best_ap s of
        None \<Rightarrow>
          (AW_wait_ap, l\<lparr>aw_best_ap := None\<rparr>,
           g_usleep (G_USEC_PER_SEC * 2) (s\<lparr>dev := (dev s)\<lparr>now_scanning := True\<rparr>\<rparr>))
      | Some best \<Rightarrow> aw_have_ap best l s)"

text \<open>
  One round of \<open>while (auth > NM_DEVICE_AUTH_METHOD_NONE)\<close>.  For an ad-hoc access
  point the result of auto-IP is overwritten by the success that ends the round; only
  for an infrastructure one are the link and the IP configuration checked, with the
  step down from Shared Key to Open System, the invalidation, and the new key request.
\<close>

definition aw_auth_round :: "ap_ref \<Rightarrow> aw_locals \<Rightarrow> NMState \<Rightarrow> aw_config" where
  "aw_auth_round best l s =
     (if \<not> auth_val (aw_auth l) > auth_val NM_DEVICE_AUTH_METHOD_NONE
      then aw_out l s
      else
        (case nm_device_activation_handle_cancel s of
           (True, s0) \<Rightarrow> aw_out l s0
         | (False, s0) \<Rightarrow>
             (case nm_device_set_wireless_config best (aw_auth l) s0 of
                (ok, s1) \<Rightarrow>
                  if ap_mode (aps s1 best) = NETWORK_MODE_ADHOC then
                    (case nm_device_activation_configure_ip True s1 of
                       (ip, s2) \<Rightarrow> aw_out (l\<lparr>aw_success := True\<rparr>) s2)
                  else if ap_mode (aps s1 best) = NETWORK_MODE_INFRA then
                    (if \<not> HAVE_LINK s1 \<and> aw_auth l = NM_DEVICE_AUTH_METHOD_SHARED_KEY
                     then (AW_auth_loop, l\<lparr>aw_auth := auth_dec (aw_auth l)\<rparr>, s1)
                     else if \<not> HAVE_LINK s1 then aw_invalidate best l s1
                     else
                       (case nm_device_activation_configure_ip False s1 of
                          (ip_success, s2) \<Rightarrow>
                            if \<not> ip_success \<and> aw_auth l = NM_DEVICE_AUTH_METHOD_SHARED_KEY
                            then (AW_auth_loop, l\<lparr>aw_auth := auth_dec (aw_auth l)\<rparr>, s2)
                            else if \<not> ip_success
                            then aw_need_key_label best (l\<lparr>aw_need_key := True\<rparr>) s2
                            else aw_out (l\<lparr>aw_success := True\<rparr>) s2))
                  else aw_out (l\<lparr>aw_success := True\<rparr>) s1)))"

text \<open>One step of the machine.\<close>

fun aw_step :: "aw_config \<Rightarrow> aw_config" where
  "aw_step (AW_start, l, s) =
     (case nm_device_is_up s of
        (up, s1) \<Rightarrow>
          (AW_get_ap, l, g_usleep G_USEC_PER_SEC (if \<not> up then nm_device_bring_up s1 else s1)))"
| "aw_step (AW_get_ap, l, s) =
     (case nm_device_activation_handle_cancel s of
        (True, s1) \<Rightarrow> aw_out l s1
      | (False, s1) \<Rightarrow> aw_ap_wait l s1)"
| "aw_step (AW_wait_ap, l, s) =
     (case nm_device_activation_handle_cancel s of
        (True, s1) \<Rightarrow> aw_out l s1
      | (False, s1) \<Rightarrow> aw_ap_wait l s1)"
| "aw_step (AW_wait_key, l, s) = aw_key_wait l s"
| "aw_step (AW_auth_loop, l, s) =
     (case aw_best_ap l of
        None \<Rightarrow> (AW_crash, l, s)
      | Some best \<Rightarrow> aw_auth_round best l s)"
| "aw_step (AW_crash, l, s) = (AW_crash, l, s)"
| "aw_step (AW_done, l, s) = (AW_done, l, s)"

text \<open>
  A run: before each step the other threads change the state as the next element of
  the list says.  The activation has returned when the control point is \<open>AW_done\<close>.
\<close>

fun aw_run :: "(NMState \<Rightarrow> NMState) list \<Rightarrow> aw_config \<Rightarrow> aw_config" where
  "aw_run [] c = c"
| "aw_run (i # is) (pc, l, s) = aw_run is (aw_step (pc, l, i s))"

section \<open>Bringing the device up before use\<close>

text \<open>
  The statement \<open>if (!nm_device_is_up (dev)); nm_device_bring_up (dev);\<close> with which the
  activation worker starts, and each iteration of the pseudo-scan: the test has an
  empty body, and the call that follows is made in either case.
\<close>

definition nm_device_activation_worker_bring_up :: "NMState \<Rightarrow> NMState" where
  "nm_device_activation_worker_bring_up s =
     (case nm_device_is_up s of
        (up, s1) \<Rightarrow> nm_device_bring_up (if \<not> up then s1 else s1))"

definition pseudo_scan_bring_up :: "NMState \<Rightarrow> NMState" where
  "pseudo_scan_bring_up s =
     (case nm_device_is_up s of
        (up, s1) \<Rightarrow> nm_device_bring_up (if \<not> up then s1 else s1))"

text \<open>
  The loop of \<open>nm_device_do_pseudo_scan\<close> over the allowed access points.  \<open>uninit\<close> is
  what the two address buffers hold before \<open>nm_device_get_ap_address\<close> is asked to
  fill them.  The loop stops at the first access point for which the card reports a
  valid address that differs from the one it had before.
\<close>

fun pseudo_scan_loop :: "ether_addr \<times> ether_addr \<Rightarrow> ap_ref list \<Rightarrow> NMState \<Rightarrow> NMState" where
  "pseudo_scan_loop uninit [] s = s"
| "pseudo_scan_loop uninit (ap # rest) s =
     (let s1 = pseudo_scan_bring_up s;
          (save_ap_addr, s2) = nm_device_get_ap_address (fst uninit) s1;
          s3 = (case ap_enc_key_source (aps s2 ap) of
                  Some k \<Rightarrow>
                    nm_device_set_enc_key (Some (nm_ap_get_enc_key_hashed (utils s2) (aps s2 ap)))
                      NM_DEVICE_AUTH_METHOD_SHARED_KEY s2
                | None \<Rightarrow> nm_device_set_enc_key None NM_DEVICE_AUTH_METHOD_NONE s2);
          s4 = nm_device_set_essid (ap_essid (aps s3 ap)) s3;
          s5 = g_usleep (G_USEC_PER_SEC * nm_device_get_association_pause_value (dev s4)) s4;
          (cur_ap_addr, s6) = nm_device_get_ap_address (snd uninit) s5;
          valid = nm_ethernet_address_is_valid (utils s6) cur_ap_addr;
          valid' = (if valid \<and> save_ap_addr = cur_ap_addr then False else valid)
      in if valid'
         then nm_data_mark_state_changed (nm_device_set_best_ap (Some ap) s6)
         else pseudo_scan_loop uninit rest s6)"

text \<open>\<open>nm_device_do_pseudo_scan\<close>; test devices do not get here.\<close>

definition nm_device_do_pseudo_scan :: "ether_addr \<times> ether_addr \<Rightarrow> NMState \<Rightarrow> NMState" where
  "nm_device_do_pseudo_scan uninit s =
     (if test_device (dev s) then s
      else
        (let s1 = s\<lparr>dev := (dev s)\<lparr>refcount := refcount (dev s) + 1\<rparr>\<rparr>;
             s2 = nm_device_set_essid (Some []) s1;
             s3 = pseudo_scan_loop uninit (allowed_ap_list (app_data s2)) s2
         in s3\<lparr>dev := (dev s3)\<lparr>refcount := refcount (dev s3) - 1\<rparr>\<rparr>))"

section \<open>Processing scan results\<close>

text \<open>
  One record of the driver's scan (\<open>wireless_scan\<close>): the fields the conversion reads.
\<close>

record wireless_scan =
  ws_has_essid :: bool
  ws_essid :: string
  ws_has_key :: bool
  ws_key_flags :: "16 word"
  ws_has_ap_addr :: bool
  ws_ap_addr :: ether_addr
  ws_has_mode :: bool
  ws_mode :: int
  ws_qual :: int
  ws_has_freq :: bool
  ws_freq :: rat

definition IW_MODE_ADHOC :: int where
  "IW_MODE_ADHOC = 1"

definition IW_MODE_INFRA :: int where
  "IW_MODE_INFRA = 2"

text \<open>
  The operations on whole lists whose sources are not at hand, taken as parameters:
  \<open>combine\<close> builds a new list from two (either may be NULL), the two copy operations
  fill in access points of the first list from the second, \<open>diff\<close> reports the
  differences of two lists on the bus, and the last one turns a scanned quality into
  a percentage.
\<close>

record ap_list_ops =
  nm_ap_list_combine :: "ap_ref list option \<Rightarrow> ap_ref list option \<Rightarrow> NMState \<Rightarrow> ap_ref list \<times> NMState"
  nm_ap_list_copy_essids_by_address :: "ap_ref list \<Rightarrow> ap_ref list option \<Rightarrow> NMState \<Rightarrow> NMState"
  nm_ap_list_copy_properties :: "ap_ref list \<Rightarrow> ap_ref list option \<Rightarrow> NMState \<Rightarrow> NMState"
  nm_ap_list_diff :: "ap_ref list option \<Rightarrow> ap_ref list option \<Rightarrow> NMState \<Rightarrow> NMState"
  nm_wireless_qual_to_percent :: "NMDevice \<Rightarrow> int \<Rightarrow> int"

text \<open>
  The static \<open>nm_device_supports_wireless_scan\<close>: a test device can always scan; a real
  one is asked by a trial scan, and can scan unless that is refused as unsupported.
\<close>

definition nm_device_supports_wireless_scan :: "NMState \<Rightarrow> bool \<times> NMState" where
  "nm_device_supports_wireless_scan s =
     (if dev_type (dev s) \<noteq> DEVICE_TYPE_WIRELESS_ETHERNET then (False, s)
      else if test_device (dev s) then (True, s)
      else
        (let s1 = klog K_socket s;
             unsupported = k_scan_unsupported (kernel s1) (k_log (kernel s1))
         in (\<not> unsupported, klog K_iw_scan s1)))"

text \<open>
  The conversion of one scan record into an access point, and whether its ESSID is
  blank (absent, empty or "<hidden>").
\<close>

definition scan_essid_blank :: "wireless_scan \<Rightarrow> bool" where
  "scan_essid_blank w =
     (\<not> ws_has_essid w \<or> length (ws_essid w) = 0 \<or> ws_essid w = ''<hidden>'')"

definition scan_to_ap :: "ap_list_ops \<Rightarrow> NMDevice \<Rightarrow> wireless_scan \<Rightarrow> NMAccessPoint" where
  "scan_to_ap ops d w =
     (let a1 = nm_ap_new\<lparr>ap_essid := (if scan_essid_blank w then None else Some (ws_essid w))\<rparr>;
          a2 = a1\<lparr>ap_encrypted :=
                   (if ws_has_key w \<and> (ws_key_flags w AND IW_ENCODE_DISABLED) \<noteq> 0
                    then False else True)\<rparr>;
          a3 = (if ws_has_ap_addr w then a2\<lparr>ap_address := Some (ws_ap_addr w)\<rparr> else a2);
          a4 = a3\<lparr>ap_mode :=
                   (if ws_has_mode w then
                      (if ws_mode w = IW_MODE_INFRA then NETWORK_MODE_INFRA
                       else if ws_mode w = IW_MODE_ADHOC then NETWORK_MODE_ADHOC
                       else NETWORK_MODE_INFRA)
                    else NETWORK_MODE_INFRA)\<rparr>;
          a5 = a4\<lparr>ap_strength := nm_wireless_qual_to_percent ops d (ws_qual w)\<rparr>
      in if ws_has_freq w then a5\<lparr>ap_freq := ws_freq w\<rparr> else a5)"

text \<open>
  The loop over the scan records: a record with an ESSID or an address becomes a new
  access point that is appended to the newest snapshot.  The result is the snapshot, the
  flag \<open>have_blank_essids\<close> and the state.
\<close>

fun scan_results_loop ::
  "ap_list_ops \<Rightarrow> wireless_scan list \<Rightarrow> ap_ref list \<times> bool \<Rightarrow> NMState
     \<Rightarrow> (ap_ref list \<times> bool) \<times> NMState" where
  "scan_results_loop ops [] lb s = (lb, s)"
| "scan_results_loop ops (w # ws) (l, blank) s =
     (if ws_has_essid w \<or> ws_has_ap_addr w then
        scan_results_loop ops ws
          (nm_ap_list_append_ap (utils s) ((aps s)(ap_next s := scan_to_ap ops (dev s) w)) l
             (ap_next s),
           blank \<or> scan_essid_blank w)
          (s\<lparr>aps := (aps s)(ap_next s := scan_to_ap ops (dev s) w), ap_next := ap_next s + 1\<rparr>)
      else scan_results_loop ops ws (l, blank) s)"

text \<open>
  The artificial access points of the old list that are kept: those whose ESSID is
  the one the card is using.
\<close>

definition kept_artificial_aps :: "NMState \<Rightarrow> ap_ref list \<Rightarrow> string option \<Rightarrow> ap_ref list" where
  "kept_artificial_aps s old essid =
     (case essid of
        None \<Rightarrow> []
      | Some e \<Rightarrow> filter (\<lambda>a. ap_essid (aps s a) = Some e \<and> ap_artificial (aps s a)) old)"

definition device_ap_list_append_aps :: "ap_ref list \<Rightarrow> NMState \<Rightarrow> NMState" where
  "device_ap_list_append_aps as s =
     (case ap_list (dev s) of
        None \<Rightarrow> s
      | Some l \<Rightarrow>
          s\<lparr>dev := (dev s)\<lparr>ap_list :=
              Some (foldl (nm_ap_list_append_ap (utils s) (aps s)) l as)\<rparr>\<rparr>)"

text \<open>
  \<open>nm_device_fake_ap_list\<close>, for test devices: four made-up access points, the
  encryption flag being set for the entries of \<open>fake_enc\<close> that are FALSE.
\<close>

definition fake_aps :: "(string \<times> ether_addr \<times> int \<times> rat \<times> bool) list" where
  "fake_aps =
     [(''green'', [0x70, 0x37, 0x03, 0x70, 0x37, 0x03], 150, 31416 / 10000, False),
      (''bay'', [0x12, 0x34, 0x56, 0x78, 0x90, 0xab], 26, 41416 / 10000, True),
      (''packers'', [0xcd, 0xef, 0x12, 0x34, 0x56, 0x78], 200, 51415 / 10000, False),
      (''rule'', [0x90, 0xab, 0xcd, 0xef, 0x12, 0x34], 100, 61415 / 10000, True)]"

fun fake_ap_list_loop ::
  "(string \<times> ether_addr \<times> int \<times> rat \<times> bool) list \<Rightarrow> NMState \<Rightarrow> NMState" where
  "fake_ap_list_loop [] s = s"
| "fake_ap_list_loop ((essid, addr, quality, freq, enc) # rest) s =
     (let a1 = nm_ap_new\<lparr>ap_essid := Some essid,
                  ap_encrypted := (if enc then False else True),
                  ap_address := Some addr, ap_strength := quality, ap_freq := freq\<rparr>;
          a2 = (case nm_ap_list_get_ap_by_essid s (allowed_ap_list (app_data s)) (Some essid) of
                  Some list_ap \<Rightarrow>
                    a1\<lparr>ap_timestamp := ap_timestamp (aps s list_ap),
                       ap_enc_key_source := ap_enc_key_source (aps s list_ap),
                       ap_enc_method := ap_enc_method (aps s list_ap)\<rparr>
                | None \<Rightarrow> a1);
          s1 = s\<lparr>aps := (aps s)(ap_next s := a2), ap_next := ap_next s + 1\<rparr>
      in fake_ap_list_loop rest
           (if nm_device_is_wireless (dev s1)
            then device_ap_list_append_aps [ap_next s] s1 else s1))"

definition nm_device_fake_ap_list :: "ap_list_ops \<Rightarrow> NMState \<Rightarrow> NMState" where
  "nm_device_fake_ap_list ops s =
     (let old_ap_list = (if nm_device_is_wireless (dev s) then ap_list (dev s) else None);
          s1 = fake_ap_list_loop fake_aps (s\<lparr>dev := (dev s)\<lparr>ap_list := Some []\<rparr>\<rparr>)
      in if is_active_device (app_data s1)
         then nm_ap_list_diff ops old_ap_list
                (if nm_device_is_wireless (dev s1) then ap_list (dev s1) else None) s1
         else s1)"

text \<open>
  \<open>nm_device_process_scan_results\<close> on a real device that can scan, in its four
  phases.  First the snapshots are shifted and the newest is filled from the scan
  (the result also tells whether a blank ESSID was seen).
\<close>

definition scan_shifted :: "NMState \<Rightarrow> NMState" where
  "scan_shifted s =
     s\<lparr>dev := (dev s)\<lparr>cached_ap_list3 := cached_ap_list2 (dev s),
                        cached_ap_list2 := cached_ap_list1 (dev s),
                        cached_ap_list1 := Some []\<rparr>\<rparr>"

definition scan_converted ::
  "ap_list_ops \<Rightarrow> wireless_scan list \<Rightarrow> NMState \<Rightarrow> (ap_ref list \<times> bool) \<times> NMState" where
  "scan_converted ops scan s =
     (case scan_results_loop ops scan ([], False) (scan_shifted s) of
        ((new_scan, have_blank_essids), s2) \<Rightarrow>
          ((new_scan, have_blank_essids),
           s2\<lparr>dev := (dev s2)\<lparr>cached_ap_list1 := Some new_scan\<rparr>\<rparr>))"

text \<open>
  Then the device's list becomes the combination of the two newest snapshots; blank
  ESSIDs are filled in from the old list and from the allowed list, and properties
  from the allowed list.
\<close>

definition scan_combined :: "ap_list_ops \<Rightarrow> bool \<Rightarrow> ap_ref list option \<Rightarrow> NMState \<Rightarrow> NMState" where
  "scan_combined ops have_blank_essids old_ap_list s =
     (case nm_ap_list_combine ops (cached_ap_list1 (dev s)) (cached_ap_list2 (dev s)) s of
        (combined, s1) \<Rightarrow>
          (let s2 = s1\<lparr>dev := (dev s1)\<lparr>ap_list := Some combined\<rparr>\<rparr>;
               s3 = (if have_blank_essids
                     then nm_ap_list_copy_essids_by_address ops combined
                            (Some (allowed_ap_list (app_data s2)))
                            (nm_ap_list_copy_essids_by_address ops combined old_ap_list s2)
                     else s2)
           in nm_ap_list_copy_properties ops combined (Some (allowed_ap_list (app_data s3))) s3))"

text \<open>
  Then the artificial access points of the old list that the card is using are
  appended to the device's list.
\<close>

definition scan_keep_artificial :: "ap_ref list option \<Rightarrow> NMState \<Rightarrow> NMState" where
  "scan_keep_artificial old_ap_list s =
     (case old_ap_list of
        None \<Rightarrow> s
      | Some old \<Rightarrow>
          (case nm_device_get_essid s of
             (essid, s1) \<Rightarrow> device_ap_list_append_aps (kept_artificial_aps s1 old essid) s1))"

text \<open>
  Last, the difference between the combination of the two oldest scans and the
  device's list is reported.
\<close>

definition scan_report :: "ap_list_ops \<Rightarrow> ap_ref list option \<Rightarrow> NMState \<Rightarrow> NMState" where
  "scan_report ops earliest_scan s =
     (case nm_ap_list_combine ops (cached_ap_list3 (dev s)) earliest_scan s of
        (old_combined, s1) \<Rightarrow> nm_ap_list_diff ops (Some old_combined) (ap_list (dev s1)) s1)"

definition nm_device_process_scan_results ::
  "ap_list_ops \<Rightarrow> ether_addr \<times> ether_addr \<Rightarrow> wireless_scan list option \<Rightarrow> NMState \<Rightarrow> NMState" where
  "nm_device_process_scan_results ops uninit results s =
     (case results of
        None \<Rightarrow> s
      | Some scan \<Rightarrow>
          if test_device (dev s) then nm_device_fake_ap_list ops s
          else
            (case nm_device_supports_wireless_scan s of
               (False, s0) \<Rightarrow> nm_device_do_pseudo_scan uninit s0
             | (True, s0) \<Rightarrow>
                 (let earliest_scan = cached_ap_list3 (dev s0);
                      old_ap_list = ap_list (dev s0)
                  in case scan_converted ops scan s0 of
                       ((new_scan, have_blank_essids), s1) \<Rightarrow>
                         scan_report ops earliest_scan
                           (scan_keep_artificial old_ap_list
                              (scan_combined ops have_blank_essids old_ap_list s1)))))"

text \<open>
  What the statements about scan processing ask of the list operations taken as
  parameters: they may change the store and send messages, but leave the device
  record alone.
\<close>

definition ops_keep_device :: "ap_list_ops \<Rightarrow> bool" where
  "ops_keep_device ops =
     ((\<forall>a b u. dev (snd (nm_ap_list_combine ops a b u)) = dev u)
      \<and> (\<forall>l b u. dev (nm_ap_list_copy_essids_by_address ops l b u) = dev u)
      \<and> (\<forall>l b u. dev (nm_ap_list_copy_properties ops l b u) = dev u)
      \<and> (\<forall>a b u. dev (nm_ap_list_diff ops a b u) = dev u))"

text \<open>
  What a run did to the interface: the \<open>SIOCSIFFLAGS\<close> calls it issued.  Two states
  agree on the interface when the kernel's flags, the test device's flag and the
  \<open>SIOCSIFFLAGS\<close> calls made so far are the same.
\<close>

fun is_SIOCSIFFLAGS :: "kcall \<Rightarrow> bool" where
  "is_SIOCSIFFLAGS (K_SIOCSIFFLAGS w) = True"
| "is_SIOCSIFFLAGS c = False"

definition sifflags_calls :: "NMState \<Rightarrow> kcall list" where
  "sifflags_calls s = filter is_SIOCSIFFLAGS (k_log (kernel s))"

definition same_interface :: "NMState \<Rightarrow> NMState \<Rightarrow> bool" where
  "same_interface s s' =
     (k_ifr_flags (kernel s') = k_ifr_flags (kernel s)
      \<and> test_device (dev s') = test_device (dev s)
      \<and> test_device_up (dev s') = test_device_up (dev s)
      \<and> sifflags_calls s' = sifflags_calls s)"

text \<open>
  The interface is up: the flag of a test device, the \<open>IFF_UP\<close> bit of a real one (as
  \<open>nm_device_is_up\<close> tests it).
\<close>
definition iface_is_up :: "NMState \<Rightarrow> bool" where
  "iface_is_up s =
     (if test_device (dev s) then test_device_up (dev s)
      else ((scast (k_ifr_flags (kernel s)) XOR IFF_UP) AND IFF_UP) = 0)"

section \<open>Beginning an activation\<close>

text \<open>
  \<open>nm_device_activation_schedule_finish\<close>: reference the device and attach an idle
  source carrying the result to the main context.
\<close>

definition nm_device_activation_schedule_finish :: "bool \<Rightarrow> NMState \<Rightarrow> NMState" where
  "nm_device_activation_schedule_finish success s =
     s\<lparr>dev := (dev s)\<lparr>refcount := refcount (dev s) + 1\<rparr>,
       idle_results := idle_results s @ [success]\<rparr>"

definition nm_dbus_signal_device_status_change :: "NMDeviceStatus \<Rightarrow> NMState \<Rightarrow> NMState" where
  "nm_dbus_signal_device_status_change st s =
     s\<lparr>dbus := dbus s @ [Signal_device_status_change st]\<rparr>"

text \<open>
  \<open>nm_device_activation_begin\<close>.  The worker thread, once created, runs beside the
  caller; here only its creation is counted.
\<close>

definition nm_device_activation_begin :: "NMState \<Rightarrow> bool \<times> NMState" where
  "nm_device_activation_begin s =
     (if activating (dev s) then (True, s)
      else
        (let s1 = s\<lparr>dev := (dev s)\<lparr>activating := True, quit_activation := False\<rparr>\<rparr>;
             s2 = (if nm_device_is_wireless (dev s1)
                   then s1\<lparr>dev := (dev s1)\<lparr>now_scanning := False, user_key_received := False\<rparr>\<rparr>
                   else s1)
         in if driver_support_level (dev s2) = NM_DRIVER_UNSUPPORTED
            then (False, s2\<lparr>dev := (dev s2)\<lparr>activating := False\<rparr>\<rparr>)
            else if starting_up (app_data s2) \<and> nm_device_is_wired (dev s2)
                    \<and> nm_device_get_ip4_address (dev s2) \<noteq> 0
            then (True, nm_device_activation_schedule_finish True
                          (s2\<lparr>dev := (dev s2)\<lparr>activating := False\<rparr>\<rparr>))
            else
              (let s3 = s2\<lparr>dev := (dev s2)\<lparr>refcount := refcount (dev s2) + 1\<rparr>\<rparr>
               in if thread_create_fails s3
                  then (False, s3\<lparr>dev := (dev s3)\<lparr>activating := False,
                                                   refcount := refcount (dev s3) - 1\<rparr>\<rparr>)
                  else (True, nm_dbus_signal_device_status_change DEVICE_ACTIVATING
                                (s3\<lparr>worker_threads := worker_threads s3 + 1\<rparr>)))))"

text \<open>
  What the radio and the IP configuration leave alone: the store of access points,
  the helper functions, the bus, the two process-wide lists, what kind of device it
  is, the flags of the activation, the best access point, the device's list, the DHCP
  collaborator, and the link state of a test device (which no driver is asked for).
\<close>

definition untouched_by_radio :: "NMState \<Rightarrow> NMState \<Rightarrow> bool" where
  "untouched_by_radio s s' =
     (aps s' = aps s \<and> ap_next s' = ap_next s \<and> utils s' = utils s \<and> dbus s' = dbus s
      \<and> allowed_ap_list (app_data s') = allowed_ap_list (app_data s)
      \<and> invalid_ap_list (app_data s') = invalid_ap_list (app_data s)
      \<and> dev_type (dev s') = dev_type (dev s)
      \<and> test_device (dev s') = test_device (dev s)
      \<and> quit_activation (dev s') = quit_activation (dev s)
      \<and> activating (dev s') = activating (dev s)
      \<and> user_key_received (dev s') = user_key_received (dev s)
      \<and> now_scanning (dev s') = now_scanning (dev s)
      \<and> best_ap (dev s') = best_ap (dev s)
      \<and> freeze_best_ap (dev s') = freeze_best_ap (dev s)
      \<and> ap_list (dev s') = ap_list (dev s)
      \<and> use_dhcp (dev s') = use_dhcp (dev s)
      \<and> k_dhcp_bound (kernel s') = k_dhcp_bound (kernel s)
      \<and> (test_device (dev s) \<longrightarrow> link_active (dev s') = link_active (dev s)))"

section \<open>Concrete states\<close>

text \<open>
  A kernel in which every call succeeds, the card reports no access point and the
  collaborators fail, and states built around it; particular scenarios override the
  fields they care about.
\<close>

definition ex_kernel :: kernel_state where
  "ex_kernel = \<lparr> k_log = [], k_ifr_flags = 0,
     k_socket_fails = (\<lambda>h. False), k_gifflags_fails = (\<lambda>h. False),
     k_sifflags_fails = (\<lambda>h. False), k_iwap = (\<lambda>h. Some bad_addr),
     k_iwname = (\<lambda>h. Some ''unassociated''), k_basic_config_essid = (\<lambda>h. Some []),
     k_in_key_full = (\<lambda>h key. (int (length key), key, 0)),
     k_rate = (\<lambda>h. Some 0), k_stats = (\<lambda>h. None), k_wired_link = (\<lambda>h. False),
     k_scan_unsupported = (\<lambda>h. False),
     k_autoip_ok = (\<lambda>h. False), k_dhcp_bound = (\<lambda>h. False),
     k_static_ok = (\<lambda>h. False) \<rparr>"

text \<open>
  An append that keeps a list free of duplicates, as the spec asks of access point
  lists: an access point that collides with one of the list (the same BSSID, or the
  same ESSID when neither has a BSSID) is not added a second time; any other goes to
  the end.
\<close>

definition ex_append :: "(ap_ref \<Rightarrow> NMAccessPoint) \<Rightarrow> ap_ref list \<Rightarrow> ap_ref \<Rightarrow> ap_ref list" where
  "ex_append store l r =
     (if list_ex (\<lambda>x. (ap_address (store x) \<noteq> None \<and> ap_address (store x) = ap_address (store r))
                      \<or> (ap_address (store x) = None \<and> ap_address (store r) = None
                          \<and> ap_essid (store x) = ap_essid (store r))) l
      then l else l @ [r])"

definition ex_utils :: NMUtils where
  "ex_utils = \<lparr> nm_ethernet_address_is_valid = (\<lambda>a. a \<noteq> bad_addr),
     nm_ap_get_enc_key_hashed = (\<lambda>ap. case ap_enc_key_source ap of Some k \<Rightarrow> k | None \<Rightarrow> []),
     nm_wireless_128bit_key_from_passphrase = (\<lambda>k. k),
     nm_wireless_64bit_ascii_to_hex = (\<lambda>k. k),
     nm_wireless_128bit_ascii_to_hex = (\<lambda>k. k),
     nm_ap_list_append_ap = ex_append \<rparr>"

definition ex_dev :: NMDevice where
  "ex_dev = \<lparr> refcount = 1, dev_type = DEVICE_TYPE_WIRELESS_ETHERNET,
     test_device = False, test_device_up = False,
     driver_support_level = NM_DRIVER_FULLY_SUPPORTED, link_active = False,
     ip4_address = 0, activating = False, quit_activation = False, use_dhcp = True,
     dhcp_iface = False, num_frequency = 11, supports_wireless_scan = True,
     cur_essid = None, now_scanning = False, user_key_received = False,
     freeze_best_ap = False, best_ap = None, ap_list = Some [],
     cached_ap_list1 = None, cached_ap_list2 = None, cached_ap_list3 = None,
     strength = -1, noise = 0, max_quality = 0, invalid_strength_counter = 0 \<rparr>"

definition ex_data :: NMData where
  "ex_data = \<lparr> starting_up = False, is_active_device = True, state_changed = False,
     allowed_ap_list = [], invalid_ap_list = [] \<rparr>"

definition ex_state :: NMState where
  "ex_state = \<lparr> dev = ex_dev, app_data = ex_data, aps = (\<lambda>r. nm_ap_new), ap_next = 0,
     kernel = ex_kernel, utils = ex_utils, dbus = [], idle_results = [], worker_threads = 0,
     thread_create_fails = False \<rparr>"

text \<open>A wired device that already has the address 192.0.2.5, while the process starts.\<close>

definition ex_wired_boot :: NMState where
  "ex_wired_boot = ex_state\<lparr>
     dev := ex_dev\<lparr>dev_type := DEVICE_TYPE_WIRED_ETHERNET, ip4_address := 0x050200C0\<rparr>,
     app_data := ex_data\<lparr>starting_up := True\<rparr>\<rparr>"

text \<open>A synthetic wireless device whose link is active.\<close>

definition ex_test_linked :: NMState where
  "ex_test_linked = ex_state\<lparr>dev := ex_dev\<lparr>test_device := True, link_active := True\<rparr>\<rparr>"

text \<open>
  A real wireless device whose interface is already up, with one allowed access
  point (reference 0, ESSID "home"), and the same device with the interface down.
\<close>

definition ex_home_ap :: NMAccessPoint where
  "ex_home_ap = nm_ap_new\<lparr>ap_essid := Some ''home'', ap_mode := NETWORK_MODE_INFRA,
     ap_timestamp := (100, 0)\<rparr>"

definition ex_down :: NMState where
  "ex_down = ex_state\<lparr>aps := (\<lambda>r. nm_ap_new)(0 := ex_home_ap), ap_next := 1,
     app_data := ex_data\<lparr>allowed_ap_list := [0]\<rparr>\<rparr>"

definition ex_up :: NMState where
  "ex_up = ex_down\<lparr>kernel := ex_kernel\<lparr>k_ifr_flags := 0x1043\<rparr>\<rparr>"

text \<open>
  A device whose best access point (reference 0, "home") is frozen, is in its list
  and is not invalid; and the same device after "home" has left the list, while
  "work" (reference 1) is visible and allowed (reference 2, trusted, with a key).
\<close>

definition ex_work_ap :: NMAccessPoint where
  "ex_work_ap = nm_ap_new\<lparr>ap_essid := Some ''work'', ap_mode := NETWORK_MODE_INFRA,
     ap_encrypted := True\<rparr>"

definition ex_work_allowed :: NMAccessPoint where
  "ex_work_allowed = nm_ap_new\<lparr>ap_essid := Some ''work'', ap_encrypted := True,
     ap_enc_key_source := Some ''deadbeef01'', ap_enc_method := NM_ENC_TYPE_HEX_KEY,
     ap_trusted := True, ap_timestamp := (200, 0)\<rparr>"

definition ex_frozen_visible :: NMState where
  "ex_frozen_visible = ex_state\<lparr>
     aps := (\<lambda>r. nm_ap_new)(0 := ex_home_ap, 1 := ex_work_ap, 2 := ex_work_allowed),
     ap_next := 3,
     dev := ex_dev\<lparr>ap_list := Some [0, 1], best_ap := Some 0, freeze_best_ap := True\<rparr>,
     app_data := ex_data\<lparr>allowed_ap_list := [2]\<rparr>\<rparr>"

definition ex_frozen_gone :: NMState where
  "ex_frozen_gone = ex_frozen_visible\<lparr>
     dev := ex_dev\<lparr>ap_list := Some [1], best_ap := Some 0, freeze_best_ap := True\<rparr>\<rparr>"

text \<open>
  Three visible access points, "home" (0), "work" (1) and "cafe" (3); allowed are
  "work" (2, trusted, seconds 200, with a key), "home" (4, untrusted, seconds 300)
  and "cafe" (5, trusted, seconds 150).
\<close>

definition ex_cafe_ap :: NMAccessPoint where
  "ex_cafe_ap = nm_ap_new\<lparr>ap_essid := Some ''cafe'', ap_mode := NETWORK_MODE_INFRA\<rparr>"

definition ex_select :: NMState where
  "ex_select = ex_state\<lparr>
     aps := (\<lambda>r. nm_ap_new)(0 := ex_home_ap, 1 := ex_work_ap, 2 := ex_work_allowed,
       3 := ex_cafe_ap,
       4 := ex_home_ap\<lparr>ap_timestamp := (300, 0)\<rparr>,
       5 := ex_cafe_ap\<lparr>ap_trusted := True, ap_timestamp := (150, 0)\<rparr>),
     ap_next := 6,
     dev := ex_dev\<lparr>ap_list := Some [0, 1, 3]\<rparr>,
     app_data := ex_data\<lparr>allowed_ap_list := [2, 4, 5]\<rparr>\<rparr>"

text \<open>
  One visible access point, "home" (0), whose allowed entry (1) is trusted and has
  the timestamp zero.
\<close>

definition ex_epoch :: NMState where
  "ex_epoch = ex_state\<lparr>
     aps := (\<lambda>r. nm_ap_new)(0 := ex_home_ap,
       1 := ex_home_ap\<lparr>ap_trusted := True, ap_timestamp := (0, 0)\<rparr>),
     ap_next := 2,
     dev := ex_dev\<lparr>ap_list := Some [0]\<rparr>,
     app_data := ex_data\<lparr>allowed_ap_list := [1]\<rparr>\<rparr>"

text \<open>
  A device waiting for the key of its best access point "wifi" (0), which is
  encrypted, visible and allowed (1) without a key.
\<close>

definition ex_wifi_ap :: NMAccessPoint where
  "ex_wifi_ap = nm_ap_new\<lparr>ap_essid := Some ''wifi'', ap_mode := NETWORK_MODE_INFRA,
     ap_encrypted := True, ap_timestamp := (100, 0)\<rparr>"

definition ex_key_wait :: NMState where
  "ex_key_wait = ex_state\<lparr>
     aps := (\<lambda>r. nm_ap_new)(0 := ex_wifi_ap, 1 := ex_wifi_ap),
     ap_next := 2,
     dev := ex_dev\<lparr>ap_list := Some [0], best_ap := Some 0, activating := True\<rparr>,
     app_data := ex_data\<lparr>allowed_ap_list := [1]\<rparr>\<rparr>"

text \<open>
  A card that associates whatever the key and the method: after every ESSID it is
  given, it reports a protocol name and the access point \<open>00:11:22:33:44:55\<close>.  The
  network "cloaked" is in no list.
\<close>

definition ex_open_bssid :: ether_addr where
  "ex_open_bssid = [0x00, 0x11, 0x22, 0x33, 0x44, 0x55]"

definition ex_always_associates :: NMState where
  "ex_always_associates = ex_state\<lparr>kernel := ex_kernel\<lparr>
     k_ifr_flags := 1,
     k_iwname := (\<lambda>h. Some ''IEEE 802.11b''),
     k_iwap := (\<lambda>h. Some ex_open_bssid),
     k_basic_config_essid := (\<lambda>h. Some ''cloaked'')\<rparr>\<rparr>"

text \<open>
  A simple instance of the list operations: \<open>combine\<close> is the union of the references
  of the two lists, the copy operations and \<open>diff\<close> do nothing, and a quality is its
  own percentage.
\<close>

definition ex_ops :: ap_list_ops where
  "ex_ops = \<lparr>
     nm_ap_list_combine = (\<lambda>a b u.
        (remdups ((case a of Some l \<Rightarrow> l | None \<Rightarrow> []) @ (case b of Some l \<Rightarrow> l | None \<Rightarrow> [])), u)),
     nm_ap_list_copy_essids_by_address = (\<lambda>l b u. u),
     nm_ap_list_copy_properties = (\<lambda>l b u. u),
     nm_ap_list_diff = (\<lambda>a b u. u),
     nm_wireless_qual_to_percent = (\<lambda>d q. q) \<rparr>"

text \<open>
  A card associated with the cloaked network "cloaked", which a directed selection
  has added to the device's list as an artificial access point (0); no scan has seen
  anything yet.  And a scan record of a visible network "home".
\<close>

definition ex_cloaked_ap :: NMAccessPoint where
  "ex_cloaked_ap = nm_ap_new\<lparr>ap_essid := Some ''cloaked'', ap_address := Some ex_open_bssid,
     ap_mode := NETWORK_MODE_INFRA, ap_artificial := True\<rparr>"

definition ex_artificial :: NMState where
  "ex_artificial = ex_always_associates\<lparr>
     aps := (\<lambda>r. nm_ap_new)(0 := ex_cloaked_ap), ap_next := 1,
     dev := ex_dev\<lparr>ap_list := Some [0], best_ap := Some 0, freeze_best_ap := True,
                  cached_ap_list1 := Some [], cached_ap_list2 := Some []\<rparr>\<rparr>"

definition ex_scan_home :: wireless_scan where
  "ex_scan_home = \<lparr> ws_has_essid = True, ws_essid = ''home'', ws_has_key = True,
     ws_key_flags = 0x8000, ws_has_ap_addr = True,
     ws_ap_addr = [0x00, 0x0c, 0x41, 0x01, 0x02, 0x03], ws_has_mode = True, ws_mode = 2,
     ws_qual = 60, ws_has_freq = False, ws_freq = 0 \<rparr>"







section \<open>Evaluating the concrete states\<close>

lemmas ex_simps =
  ex_state_def ex_dev_def ex_data_def ex_kernel_def ex_utils_def ex_append_def ex_home_ap_def
  ex_work_ap_def
  ex_work_allowed_def ex_cafe_ap_def nm_ap_new_def

lemmas radio_simps =
  nm_device_is_wireless_def nm_device_set_essid_def nm_device_get_essid_def
  nm_device_set_enc_key_def nm_device_set_mode_def nm_device_bring_up_def
  nm_device_bring_down_def nm_device_set_up_down_def nm_device_is_up_def
  nm_device_get_ap_address_def nm_device_wireless_is_associated_def
  nm_device_need_ap_switch_def nm_device_wireless_link_active_def
  nm_device_update_signal_strength_def nm_device_update_link_active_def
  nm_device_get_link_active_def nm_data_mark_state_changed_def
  nm_device_get_association_pause_value_def nm_device_set_bitrate_def
  nm_device_get_bitrate_def nm_device_set_frequency_def nm_null_safe_strcmp_eq_def
  iw_sockets_open_def nm_device_open_sock_def klog_def g_usleep_def G_USEC_PER_SEC_def
  IFF_UP_def IW_ESSID_MAX_SIZE_def IW_ENCODING_TOKEN_MAX_def IW_ENCODE_ENABLED_def
  IW_ENCODE_DISABLED_def IW_ENCODE_RESTRICTED_def IW_ENCODE_OPEN_def IW_ENCODE_NOKEY_def
  Let_def

lemmas network_exists_simps =
  nm_device_wireless_network_exists_def network_exists_auths_def network_exists_probe_def
  nm_ap_list_get_ap_by_essid_def

lemmas scan_simps =
  nm_device_process_scan_results_def nm_device_supports_wireless_scan_def scan_converted_def
  scan_shifted_def scan_to_ap_def scan_essid_blank_def scan_combined_def
  scan_keep_artificial_def kept_artificial_aps_def device_ap_list_append_aps_def
  scan_report_def IW_MODE_INFRA_def IW_MODE_ADHOC_def

lemmas update_best_ap_simps =
  nm_device_update_best_ap_def nm_device_is_best_ap_frozen_def nm_device_is_wireless_def
  update_best_ap_select_def best_ap_vars_init_def nm_ap_list_get_ap_by_essid_def
  nm_ap_set_enc_key_source_def nm_device_set_best_ap_def nm_device_unfreeze_best_ap_def
  nm_device_set_essid_def nm_device_set_enc_key_def nm_device_bring_up_def
  nm_device_set_up_down_def iw_sockets_open_def nm_device_open_sock_def klog_def Let_def

section \<open>The association pause\<close>

text \<open>
  C8.  For every wireless device the association pause is 10 seconds when the range
  information of the radio reports more than 14 frequencies, and 5 seconds otherwise.
\<close>

theorem association_pause_value:
  "nm_device_is_wireless d \<Longrightarrow>
     nm_device_get_association_pause_value d
       = (if 14 < unat (num_frequency d) then 10 else 5)"
  by (simp add: nm_device_get_association_pause_value_def word_less_nat_alt)

theorem association_pause_value_witness:
  "nm_device_is_wireless (ex_dev\<lparr>num_frequency := 15\<rparr>)
   \<and> nm_device_get_association_pause_value (ex_dev\<lparr>num_frequency := 15\<rparr>) = 10
   \<and> nm_device_is_wireless (ex_dev\<lparr>num_frequency := 14\<rparr>)
   \<and> nm_device_get_association_pause_value (ex_dev\<lparr>num_frequency := 14\<rparr>) = 5"
  using association_pause_value [of "ex_dev\<lparr>num_frequency := 15\<rparr>"]
        association_pause_value [of "ex_dev\<lparr>num_frequency := 14\<rparr>"]
  by (simp add: nm_device_is_wireless_def ex_dev_def)

section \<open>The startup special case of activation\<close>

text \<open>
  C5.  When \<open>nm_device_activation_begin\<close> is called while the process is starting up, on
  a wired device that already has a non-zero IPv4 address, no worker thread is
  created, the kernel is not touched and nothing is sent on the bus, whatever else
  holds.  If moreover the device is not already activating and its driver is
  supported (the two conditions under which beginning an activation is a no-op),
  the call returns TRUE, the device is left not activating, and exactly one result,
  a success, is scheduled for the main loop.
\<close>

theorem activation_begin_startup_wired:
  assumes "starting_up (app_data s)"
    and "nm_device_is_wired (dev s)"
    and "nm_device_get_ip4_address (dev s) \<noteq> 0"
  shows "kernel (snd (nm_device_activation_begin s)) = kernel s
       \<and> worker_threads (snd (nm_device_activation_begin s)) = worker_threads s
       \<and> dbus (snd (nm_device_activation_begin s)) = dbus s
       \<and> (\<not> activating (dev s) \<and> driver_support_level (dev s) \<noteq> NM_DRIVER_UNSUPPORTED \<longrightarrow>
            fst (nm_device_activation_begin s)
          \<and> \<not> activating (dev (snd (nm_device_activation_begin s)))
          \<and> idle_results (snd (nm_device_activation_begin s)) = idle_results s @ [True])"
  using assms
  by (simp add: nm_device_activation_begin_def Let_def nm_device_is_wired_def
        nm_device_is_wireless_def nm_device_get_ip4_address_def
        nm_device_activation_schedule_finish_def)

theorem activation_begin_startup_wired_witness:
  "starting_up (app_data ex_wired_boot)
   \<and> nm_device_is_wired (dev ex_wired_boot)
   \<and> nm_device_get_ip4_address (dev ex_wired_boot) \<noteq> 0
   \<and> \<not> activating (dev ex_wired_boot)
   \<and> driver_support_level (dev ex_wired_boot) \<noteq> NM_DRIVER_UNSUPPORTED
   \<and> fst (nm_device_activation_begin ex_wired_boot)
   \<and> idle_results (snd (nm_device_activation_begin ex_wired_boot)) = [True]
   \<and> dbus (snd (nm_device_activation_begin ex_wired_boot)) = []
   \<and> worker_threads (snd (nm_device_activation_begin ex_wired_boot)) = 0
   \<and> k_log (kernel (snd (nm_device_activation_begin ex_wired_boot))) = []"
proof -
  have h: "starting_up (app_data ex_wired_boot)"
    "nm_device_is_wired (dev ex_wired_boot)"
    "nm_device_get_ip4_address (dev ex_wired_boot) \<noteq> 0"
    "\<not> activating (dev ex_wired_boot)"
    "driver_support_level (dev ex_wired_boot) \<noteq> NM_DRIVER_UNSUPPORTED"
    by (simp_all add: ex_wired_boot_def ex_state_def ex_dev_def ex_data_def
          nm_device_is_wired_def nm_device_get_ip4_address_def)
  have e: "idle_results ex_wired_boot = []" "dbus ex_wired_boot = []"
    "worker_threads ex_wired_boot = 0" "k_log (kernel ex_wired_boot) = []"
    by (simp_all add: ex_wired_boot_def ex_state_def ex_kernel_def)
  from activation_begin_startup_wired [OF h(1) h(2) h(3)] h e show ?thesis
    by simp
qed

section \<open>The associated address of a synthetic device\<close>

text \<open>
  C10.  On a synthetic wireless device whose link is active,
  \<open>nm_device_get_ap_address\<close> touches no kernel call, but it leaves the caller's buffer
  as it was: a buffer holding the all-zero address still holds it afterwards, not the
  made-up address \<open>70:37:03:70:37:03\<close>.
\<close>

theorem get_ap_address_test_device_buffer_unwritten:
  "test_device (dev ex_test_linked)
   \<and> nm_device_is_wireless (dev ex_test_linked)
   \<and> nm_device_get_link_active (dev ex_test_linked)
   \<and> nm_device_get_ap_address bad_addr ex_test_linked = (bad_addr, ex_test_linked)
   \<and> bad_addr \<noteq> good_addr"
  by (simp add: nm_device_get_ap_address_def ex_test_linked_def ex_state_def ex_dev_def
        nm_device_is_wireless_def nm_device_get_link_active_def bad_addr_def good_addr_def)

section \<open>The call that brings the device up\<close>

lemma is_up_iface_is_up: "fst (nm_device_is_up s) \<Longrightarrow> iface_is_up s"
  by (auto simp: nm_device_is_up_def iface_is_up_def nm_device_open_sock_def klog_def Let_def
      split: if_splits prod.splits bool.splits)

lemma same_interface_refl: "same_interface s s"
  by (simp add: same_interface_def)

lemma same_interface_trans:
  "same_interface s s' \<Longrightarrow> same_interface s' s'' \<Longrightarrow> same_interface s s''"
  by (simp add: same_interface_def)

lemma iface_is_up_cong:
  "same_interface s s' \<Longrightarrow> iface_is_up s' = iface_is_up s"
  by (simp add: same_interface_def iface_is_up_def)

lemma is_up_same: "same_interface s (snd (nm_device_is_up s))"
  by (auto simp: nm_device_is_up_def same_interface_def sifflags_calls_def nm_device_open_sock_def klog_def Let_def
      split: if_splits prod.splits bool.splits)

lemma bring_up_same: "iface_is_up s \<Longrightarrow> same_interface s (nm_device_bring_up s)"
  by (auto simp: nm_device_bring_up_def nm_device_set_up_down_def iface_is_up_def
        same_interface_def sifflags_calls_def nm_device_open_sock_def klog_def Let_def
      split: if_splits prod.splits bool.splits)

lemma klog_same: "\<not> is_SIOCSIFFLAGS c \<Longrightarrow> same_interface s (klog c s)"
  by (simp add: same_interface_def sifflags_calls_def klog_def)

lemma get_ap_address_same: "same_interface s (snd (nm_device_get_ap_address a s))"
  by (auto simp: nm_device_get_ap_address_def same_interface_def sifflags_calls_def klog_def Let_def
      split: option.splits)

lemma set_enc_key_same: "same_interface s (nm_device_set_enc_key k a s)"
  by (auto simp: nm_device_set_enc_key_def same_interface_def sifflags_calls_def klog_def Let_def
        iw_sockets_open_def
      split: option.splits prod.splits bool.splits)

lemma set_essid_same: "same_interface s (nm_device_set_essid e s)"
  by (auto simp: nm_device_set_essid_def same_interface_def sifflags_calls_def klog_def Let_def
        iw_sockets_open_def
      split: option.splits prod.splits bool.splits)

lemma g_usleep_same: "same_interface s (g_usleep n s)"
  by (simp add: g_usleep_def klog_same)

lemma set_best_ap_same: "same_interface s (nm_device_set_best_ap a s)"
  by (simp add: nm_device_set_best_ap_def nm_device_unfreeze_best_ap_def same_interface_def sifflags_calls_def)

lemma mark_state_changed_same: "same_interface s (nm_data_mark_state_changed s)"
  by (simp add: nm_data_mark_state_changed_def same_interface_def sifflags_calls_def)

lemma worker_bring_up_same:
  assumes "iface_is_up s"
  shows "same_interface s (nm_device_activation_worker_bring_up s)"
proof -
  obtain up s1 where u: "nm_device_is_up s = (up, s1)" by (cases "nm_device_is_up s")
  have a: "same_interface s s1" using is_up_same [of s] u by simp
  then have "iface_is_up s1" using assms by (simp add: iface_is_up_cong)
  then have "same_interface s1 (nm_device_bring_up s1)" by (rule bring_up_same)
  with a have "same_interface s (nm_device_bring_up s1)" by (rule same_interface_trans)
  then show ?thesis by (simp add: nm_device_activation_worker_bring_up_def u)
qed

lemma pseudo_scan_bring_up_same:
  assumes "iface_is_up s"
  shows "same_interface s (pseudo_scan_bring_up s)"
proof -
  obtain up s1 where u: "nm_device_is_up s = (up, s1)" by (cases "nm_device_is_up s")
  have a: "same_interface s s1" using is_up_same [of s] u by simp
  then have "iface_is_up s1" using assms by (simp add: iface_is_up_cong)
  then have "same_interface s1 (nm_device_bring_up s1)" by (rule bring_up_same)
  with a have "same_interface s (nm_device_bring_up s1)" by (rule same_interface_trans)
  then show ?thesis by (simp add: pseudo_scan_bring_up_def u)
qed

lemma pseudo_scan_loop_same:
  "iface_is_up s \<Longrightarrow> same_interface s (pseudo_scan_loop uninit xs s)"
proof (induction xs arbitrary: s)
  case Nil
  show ?case by (simp add: same_interface_refl)
next
  case (Cons ap rest)
  define s1 where "s1 = pseudo_scan_bring_up s"
  define s2 where "s2 = snd (nm_device_get_ap_address (fst uninit) s1)"
  define s3 where "s3 = (case ap_enc_key_source (aps s2 ap) of
                  Some k \<Rightarrow>
                    nm_device_set_enc_key (Some (nm_ap_get_enc_key_hashed (utils s2) (aps s2 ap)))
                      NM_DEVICE_AUTH_METHOD_SHARED_KEY s2
                | None \<Rightarrow> nm_device_set_enc_key None NM_DEVICE_AUTH_METHOD_NONE s2)"
  define s4 where "s4 = nm_device_set_essid (ap_essid (aps s3 ap)) s3"
  define s5 where "s5 = g_usleep (G_USEC_PER_SEC * nm_device_get_association_pause_value (dev s4)) s4"
  define s6 where "s6 = snd (nm_device_get_ap_address (snd uninit) s5)"
  have 1: "same_interface s s1" unfolding s1_def using Cons.prems by (rule pseudo_scan_bring_up_same)
  have 2: "same_interface s1 s2" unfolding s2_def by (rule get_ap_address_same)
  have 3: "same_interface s2 s3" unfolding s3_def by (simp add: set_enc_key_same split: option.splits)
  have 4: "same_interface s3 s4" unfolding s4_def by (rule set_essid_same)
  have 5: "same_interface s4 s5" unfolding s5_def by (rule g_usleep_same)
  have 6: "same_interface s5 s6" unfolding s6_def by (rule get_ap_address_same)
  have s6: "same_interface s s6"
    using 1 2 3 4 5 6 by (blast intro: same_interface_trans)
  then have up6: "iface_is_up s6" using Cons.prems by (simp add: iface_is_up_cong)
  have rec: "same_interface s (pseudo_scan_loop uninit rest s6)"
    using s6 Cons.IH [OF up6] by (rule same_interface_trans)
  have fin: "same_interface s (nm_data_mark_state_changed (nm_device_set_best_ap (Some ap) s6))"
    using s6 set_best_ap_same mark_state_changed_same by (blast intro: same_interface_trans)
  have "pseudo_scan_loop uninit (ap # rest) s
           = nm_data_mark_state_changed (nm_device_set_best_ap (Some ap) s6)
        \<or> pseudo_scan_loop uninit (ap # rest) s = pseudo_scan_loop uninit rest s6"
    unfolding s6_def s5_def s4_def s3_def s2_def s1_def
    by (simp add: Let_def split_beta)
  then show ?case
    using rec fin by auto
qed

lemma do_pseudo_scan_same:
  assumes "iface_is_up s"
  shows "same_interface s (nm_device_do_pseudo_scan uninit s)"
proof (cases "test_device (dev s)")
  case True
  then show ?thesis by (simp add: nm_device_do_pseudo_scan_def same_interface_refl)
next
  case False
  define s1 where "s1 = s\<lparr>dev := (dev s)\<lparr>refcount := refcount (dev s) + 1\<rparr>\<rparr>"
  define s2 where "s2 = nm_device_set_essid (Some []) s1"
  define s3 where "s3 = pseudo_scan_loop uninit (allowed_ap_list (app_data s2)) s2"
  have 1: "same_interface s s1" by (simp add: s1_def same_interface_def sifflags_calls_def)
  have 2: "same_interface s1 s2" unfolding s2_def by (rule set_essid_same)
  have 12: "same_interface s s2" using 1 2 by (rule same_interface_trans)
  then have "iface_is_up s2" using assms by (simp add: iface_is_up_cong)
  then have 3: "same_interface s2 s3" unfolding s3_def by (rule pseudo_scan_loop_same)
  have 4: "same_interface s3 (s3\<lparr>dev := (dev s3)\<lparr>refcount := refcount (dev s3) - 1\<rparr>\<rparr>)"
    by (simp add: same_interface_def sifflags_calls_def)
  have "same_interface s (s3\<lparr>dev := (dev s3)\<lparr>refcount := refcount (dev s3) - 1\<rparr>\<rparr>)"
    using 12 3 4 by (blast intro: same_interface_trans)
  then show ?thesis using False
    by (simp add: nm_device_do_pseudo_scan_def Let_def s1_def s2_def s3_def)
qed

text \<open>
  What the call that follows the test costs a device that is up, and what it does not:
  when \<open>nm_device_is_up\<close> answers TRUE, the statement (which calls \<open>nm_device_bring_up\<close>
  whatever the answer) issues no \<open>SIOCSIFFLAGS\<close> and leaves the interface flags and the
  test device's flag as they were, and so do a whole run of the loop over any list of
  access points and the whole pseudo-scan.
\<close>

lemma up_device_flags_unchanged:
  assumes "fst (nm_device_is_up s)"
  shows "same_interface s (nm_device_activation_worker_bring_up s)
       \<and> same_interface s (pseudo_scan_bring_up s)
       \<and> same_interface s (pseudo_scan_loop uninit xs s)
       \<and> same_interface s (nm_device_do_pseudo_scan uninit s)"
  using is_up_iface_is_up [OF assms]
  by (simp add: worker_bring_up_same pseudo_scan_bring_up_same pseudo_scan_loop_same
        do_pseudo_scan_same)

text \<open>
  On a device with its interface down, the worker's first statement issues one
  \<open>SIOCSIFFLAGS\<close> that sets \<open>IFF_UP\<close>, after which the device is up.
\<close>

lemma worker_bring_up_when_down:
  "\<not> fst (nm_device_is_up ex_down)
   \<and> sifflags_calls (nm_device_activation_worker_bring_up ex_down) = [K_SIOCSIFFLAGS 1]
   \<and> fst (nm_device_is_up (nm_device_activation_worker_bring_up ex_down))"
  by (simp add: nm_device_is_up_def nm_device_activation_worker_bring_up_def
        nm_device_bring_up_def nm_device_set_up_down_def sifflags_calls_def
        ex_down_def ex_state_def ex_dev_def ex_kernel_def nm_device_open_sock_def klog_def
        Let_def IFF_UP_def)

text \<open>
  C9.  The claim is that at the start of the activation worker, and in each iteration
  of the pseudo-scan loop, the device is brought up only if it is not already up.  The
  code does otherwise: the test \<open>if (!nm_device_is_up (dev));\<close> has an empty body, so
  both places call \<open>nm_device_bring_up\<close> whatever the test answered.  On a real device
  whose interface is up (\<open>nm_device_is_up\<close> answers TRUE after one socket and one
  \<open>SIOCGIFFLAGS\<close>), the call is made all the same: \<open>nm_device_set_up_down\<close> opens a second
  socket and issues a second \<open>SIOCGIFFLAGS\<close>, where the specified behaviour makes no
  call at all.
\<close>

theorem bring_up_called_on_up_device:
  "nm_device_activation_worker_bring_up s = nm_device_bring_up (snd (nm_device_is_up s))
   \<and> pseudo_scan_bring_up s = nm_device_bring_up (snd (nm_device_is_up s))
   \<and> fst (nm_device_is_up ex_up)
   \<and> k_log (kernel ex_up) = []
   \<and> k_log (kernel (snd (nm_device_is_up ex_up))) = [K_socket, K_SIOCGIFFLAGS]
   \<and> k_log (kernel (nm_device_activation_worker_bring_up ex_up))
        = [K_socket, K_SIOCGIFFLAGS, K_socket, K_SIOCGIFFLAGS]
   \<and> k_log (kernel (pseudo_scan_bring_up ex_up))
        = [K_socket, K_SIOCGIFFLAGS, K_socket, K_SIOCGIFFLAGS]"
  by (simp add: nm_device_is_up_def nm_device_activation_worker_bring_up_def
        pseudo_scan_bring_up_def nm_device_bring_up_def nm_device_set_up_down_def
        ex_up_def ex_down_def ex_state_def ex_dev_def ex_kernel_def nm_device_open_sock_def
        klog_def Let_def IFF_UP_def split_beta)

section \<open>The best access point selector\<close>

lemma set_essid_frame:
  "aps (nm_device_set_essid e s) = aps s"
  "app_data (nm_device_set_essid e s) = app_data s"
  "best_ap (dev (nm_device_set_essid e s)) = best_ap (dev s)"
  "freeze_best_ap (dev (nm_device_set_essid e s)) = freeze_best_ap (dev s)"
  "dev_type (dev (nm_device_set_essid e s)) = dev_type (dev s)"
  "ap_list (dev (nm_device_set_essid e s)) = ap_list (dev s)"
  by (auto simp: nm_device_set_essid_def iw_sockets_open_def klog_def Let_def
      split: option.splits prod.splits bool.splits)

lemma set_enc_key_frame:
  "aps (nm_device_set_enc_key k a s) = aps s"
  "app_data (nm_device_set_enc_key k a s) = app_data s"
  "dev (nm_device_set_enc_key k a s) = dev s"
  by (auto simp: nm_device_set_enc_key_def iw_sockets_open_def klog_def Let_def
      split: option.splits prod.splits bool.splits)

lemma bring_up_frame:
  "aps (nm_device_bring_up s) = aps s"
  "app_data (nm_device_bring_up s) = app_data s"
  "best_ap (dev (nm_device_bring_up s)) = best_ap (dev s)"
  "freeze_best_ap (dev (nm_device_bring_up s)) = freeze_best_ap (dev s)"
  "dev_type (dev (nm_device_bring_up s)) = dev_type (dev s)"
  "ap_list (dev (nm_device_bring_up s)) = ap_list (dev s)"
  by (auto simp: nm_device_bring_up_def nm_device_set_up_down_def nm_device_open_sock_def klog_def Let_def
      split: option.splits prod.splits bool.splits)

lemma set_best_ap_frame:
  "aps (nm_device_set_best_ap b s) = aps s"
  "app_data (nm_device_set_best_ap b s) = app_data s"
  "nm_device_is_wireless (dev s) \<Longrightarrow> best_ap (dev (nm_device_set_best_ap b s)) = b"
  "nm_device_is_wireless (dev s) \<Longrightarrow> \<not> freeze_best_ap (dev (nm_device_set_best_ap b s))"
  "dev_type (dev (nm_device_set_best_ap b s)) = dev_type (dev s)"
  by (auto simp: nm_device_set_best_ap_def nm_device_unfreeze_best_ap_def nm_device_is_wireless_def)

lemma loop_frame:
  "dev (snd (update_best_ap_loop l v s)) = dev s"
  "app_data (snd (update_best_ap_loop l v s)) = app_data s"
  "kernel (snd (update_best_ap_loop l v s)) = kernel s"
  by (induction l v s rule: update_best_ap_loop.induct;
      simp add: Let_def nm_ap_set_enc_key_source_def split: option.splits)+

lemma radio_reset_frame:
  "aps (radio_reset s) = aps s"
  "app_data (radio_reset s) = app_data s"
  "best_ap (dev (radio_reset s)) = best_ap (dev s)"
  "freeze_best_ap (dev (radio_reset s)) = freeze_best_ap (dev s)"
  by (simp_all add: radio_reset_def set_essid_frame set_enc_key_frame bring_up_frame)

lemma select_eq:
  "update_best_ap_select l s =
     (let v = fst (update_best_ap_loop l best_ap_vars_init s);
          s1 = snd (update_best_ap_loop l best_ap_vars_init s);
          best = (case trusted_best_ap v of Some r \<Rightarrow> Some r | None \<Rightarrow> untrusted_best_ap v)
      in if best = None then radio_reset (nm_device_set_best_ap None s1)
         else nm_device_set_best_ap best s1)"
  by (auto simp: update_best_ap_select_def radio_reset_def Let_def split: prod.splits option.splits)

lemma select_best:
  assumes "nm_device_is_wireless (dev s)"
  shows "best_ap (dev (update_best_ap_select l s))
           = (case trusted_best_ap (fst (update_best_ap_loop l best_ap_vars_init s)) of
                Some r \<Rightarrow> Some r
              | None \<Rightarrow> untrusted_best_ap (fst (update_best_ap_loop l best_ap_vars_init s)))"
    and "\<not> freeze_best_ap (dev (update_best_ap_select l s))"
    and "aps (update_best_ap_select l s) = aps (snd (update_best_ap_loop l best_ap_vars_init s))"
    and "app_data (update_best_ap_select l s) = app_data s"
proof -
  let ?s1 = "snd (update_best_ap_loop l best_ap_vars_init s)"
  have w: "nm_device_is_wireless (dev ?s1)"
    using assms by (simp add: loop_frame)
  show "best_ap (dev (update_best_ap_select l s))
           = (case trusted_best_ap (fst (update_best_ap_loop l best_ap_vars_init s)) of
                Some r \<Rightarrow> Some r
              | None \<Rightarrow> untrusted_best_ap (fst (update_best_ap_loop l best_ap_vars_init s)))"
    using w by (simp add: select_eq Let_def radio_reset_frame set_best_ap_frame)
  show "\<not> freeze_best_ap (dev (update_best_ap_select l s))"
    using w by (simp add: select_eq Let_def radio_reset_frame set_best_ap_frame)
  show "aps (update_best_ap_select l s) = aps ?s1"
    by (simp add: select_eq Let_def radio_reset_frame set_best_ap_frame)
  show "app_data (update_best_ap_select l s) = app_data s"
    by (simp add: select_eq Let_def radio_reset_frame set_best_ap_frame loop_frame)
qed

lemma select_unfrozen:
  "nm_device_is_wireless (dev s) \<Longrightarrow> \<not> freeze_best_ap (dev (update_best_ap_select l s))"
  by (rule select_best)

lemma veq_refl: "veq s s" by (simp add: veq_def)

lemma veq_lookup:
  "veq s0 s \<Longrightarrow> nm_ap_list_get_ap_by_essid s l e = nm_ap_list_get_ap_by_essid s0 l e"
  by (cases e) (auto simp: nm_ap_list_get_ap_by_essid_def veq_def intro: find_cong)

lemma veq_match: "veq s0 s \<Longrightarrow> allowed_match s r = allowed_match s0 r"
proof -
  assume v: "veq s0 s"
  then have "app_data s = app_data s0" "ap_essid (aps s r) = ap_essid (aps s0 r)"
    by (simp_all add: veq_def)
  then show ?thesis by (simp add: allowed_match_def veq_lookup [OF v])
qed

lemma veq_cand: "veq s0 s \<Longrightarrow> candidate_seconds s tr r = candidate_seconds s0 tr r"
proof -
  assume v: "veq s0 s"
  then have "\<And>t. ap_trusted (aps s t) = ap_trusted (aps s0 t)"
    "\<And>t. ap_timestamp (aps s t) = ap_timestamp (aps s0 t)"
    by (simp_all add: veq_def)
  then show ?thesis by (simp add: candidate_seconds_def veq_match [OF v] split: option.splits)
qed

lemma veq_copy_key: "veq s0 s \<Longrightarrow> veq s0 (copy_key x t s)"
  by (simp add: veq_def copy_key_def nm_ap_set_enc_key_source_def)

lemma loop_step:
  "update_best_ap_loop (x # xs) v s =
     (case allowed_match s x of
        None \<Rightarrow> update_best_ap_loop xs v s
      | Some t \<Rightarrow>
          if ap_trusted (aps s t) \<and> fst (ap_timestamp (aps s t)) > fst (trusted_latest_timestamp v)
          then update_best_ap_loop xs
                 (v\<lparr>trusted_latest_timestamp := ap_timestamp (aps s t), trusted_best_ap := Some x\<rparr>)
                 (copy_key x t s)
          else if \<not> ap_trusted (aps s t)
                  \<and> fst (ap_timestamp (aps s t)) > fst (untrusted_latest_timestamp v)
          then update_best_ap_loop xs
                 (v\<lparr>untrusted_latest_timestamp := ap_timestamp (aps s t), untrusted_best_ap := Some x\<rparr>)
                 (copy_key x t s)
          else update_best_ap_loop xs v s)"
  by (simp add: allowed_match_def copy_key_def Let_def split: option.splits)

lemma loop_veq: "veq s0 s \<Longrightarrow> veq s0 (snd (update_best_ap_loop xs v s))"
proof (induction xs arbitrary: v s)
  case Nil
  then show ?case by simp
next
  case (Cons x xs)
  show ?case
    using Cons.prems Cons.IH veq_copy_key [OF Cons.prems]
    by (simp add: loop_step del: update_best_ap_loop.simps split: option.splits)
qed

lemma self_match: "allowed_match s x = Some t \<Longrightarrow> allowed_match s t = Some t"
proof -
  assume a: "allowed_match s x = Some t"
  then have inv: "nm_ap_list_get_ap_by_essid s (invalid_ap_list (app_data s)) (ap_essid (aps s x)) = None"
    and al: "nm_ap_list_get_ap_by_essid s (allowed_ap_list (app_data s)) (ap_essid (aps s x)) = Some t"
    by (auto simp: allowed_match_def split: if_splits)
  from al have "ap_essid (aps s t) = ap_essid (aps s x)"
    by (auto simp: nm_ap_list_get_ap_by_essid_def find_Some_iff split: option.splits)
  with inv al show ?thesis by (simp add: allowed_match_def)
qed

lemma keys_from_match_target:
  "keys_from_match s0 s \<Longrightarrow> allowed_match s0 x = Some t \<Longrightarrow> keyof s t = keyof s0 t"
  using self_match [of s0 x t] by (auto simp: keys_from_match_def)

lemma keyof_copy_key:
  "keyof (copy_key x t s) y = (if y = x then keyof s t else keyof s y)"
  by (simp add: keyof_def copy_key_def nm_ap_set_enc_key_source_def)

lemma keys_from_match_copy:
  assumes "veq s0 s" "keys_from_match s0 s" "allowed_match s x = Some t"
  shows "keys_from_match s0 (copy_key x t s)"
proof -
  have m: "allowed_match s0 x = Some t" using assms(1,3) by (simp add: veq_match)
  have k: "keyof s t = keyof s0 t" using assms(2) m by (rule keys_from_match_target)
  show ?thesis
    using assms(2) m k by (auto simp: keys_from_match_def keyof_copy_key)
qed

lemma loop_keys:
  "veq s0 s \<Longrightarrow> keys_from_match s0 s \<Longrightarrow> keys_from_match s0 (snd (update_best_ap_loop xs v s))"
proof (induction xs arbitrary: v s)
  case Nil
  then show ?case by simp
next
  case (Cons x xs)
  show ?case
  proof (cases "allowed_match s x")
    case None
    then show ?thesis using Cons by (simp add: loop_step del: update_best_ap_loop.simps)
  next
    case (Some t)
    have a: "veq s0 (copy_key x t s)" using Cons.prems(1) by (rule veq_copy_key)
    have b: "keys_from_match s0 (copy_key x t s)"
      using Cons.prems Some by (rule keys_from_match_copy)
    show ?thesis
      using Some Cons.prems Cons.IH [OF a b] Cons.IH [OF Cons.prems]
      by (simp add: loop_step del: update_best_ap_loop.simps)
  qed
qed


lemma best_has_key_copy:
  assumes "veq s0 s" "keys_from_match s0 s" "allowed_match s x = Some t"
  shows "best_has_key s0 (Some x) (copy_key x t s)"
    and "best_has_key s0 b s \<Longrightarrow> best_has_key s0 b (copy_key x t s)"
proof -
  have m: "allowed_match s0 x = Some t" using assms(1,3) by (simp add: veq_match)
  have k: "keyof s t = keyof s0 t" using assms(2) m by (rule keys_from_match_target)
  show "best_has_key s0 (Some x) (copy_key x t s)"
    using m k by (simp add: best_has_key_def keyof_copy_key)
  show "best_has_key s0 b s \<Longrightarrow> best_has_key s0 b (copy_key x t s)"
    using m k by (auto simp: best_has_key_def keyof_copy_key)
qed

lemma loop_best_key:
  "veq s0 s \<Longrightarrow> keys_from_match s0 s \<Longrightarrow>
   best_has_key s0 (trusted_best_ap v) s \<Longrightarrow> best_has_key s0 (untrusted_best_ap v) s \<Longrightarrow>
   best_has_key s0 (trusted_best_ap (fst (update_best_ap_loop xs v s)))
     (snd (update_best_ap_loop xs v s))
   \<and> best_has_key s0 (untrusted_best_ap (fst (update_best_ap_loop xs v s)))
     (snd (update_best_ap_loop xs v s))"
proof (induction xs arbitrary: v s)
  case Nil
  then show ?case by simp
next
  case (Cons x xs)
  show ?case
  proof (cases "allowed_match s x")
    case None
    then show ?thesis using Cons by (simp add: loop_step del: update_best_ap_loop.simps)
  next
    case (Some t)
    let ?s = "copy_key x t s"
    have a: "veq s0 ?s" using Cons.prems(1) by (rule veq_copy_key)
    have b: "keys_from_match s0 ?s"
      using Cons.prems(1,2) Some by (rule keys_from_match_copy)
    have n: "best_has_key s0 (Some x) ?s"
      using Cons.prems(1,2) Some by (rule best_has_key_copy(1))
    have kt: "best_has_key s0 (trusted_best_ap v) ?s"
      using Cons.prems(1,2) Some Cons.prems(3) by (rule best_has_key_copy(2))
    have ku: "best_has_key s0 (untrusted_best_ap v) ?s"
      using Cons.prems(1,2) Some Cons.prems(4) by (rule best_has_key_copy(2))
    have 1: "best_has_key s0 (trusted_best_ap (v\<lparr>trusted_latest_timestamp := ap_timestamp (aps s t), trusted_best_ap := Some x\<rparr>)) ?s"
      "best_has_key s0 (untrusted_best_ap (v\<lparr>trusted_latest_timestamp := ap_timestamp (aps s t), trusted_best_ap := Some x\<rparr>)) ?s"
      using n ku by simp_all
    have 2: "best_has_key s0 (trusted_best_ap (v\<lparr>untrusted_latest_timestamp := ap_timestamp (aps s t), untrusted_best_ap := Some x\<rparr>)) ?s"
      "best_has_key s0 (untrusted_best_ap (v\<lparr>untrusted_latest_timestamp := ap_timestamp (aps s t), untrusted_best_ap := Some x\<rparr>)) ?s"
      using n kt by simp_all
    show ?thesis
      using Some Cons.IH [OF a b 1] Cons.IH [OF a b 2] Cons.IH [OF Cons.prems]
      by (simp add: loop_step del: update_best_ap_loop.simps)
  qed
qed

lemma loop_run_max:
  "veq s0 s \<Longrightarrow>
   (trusted_best_ap (fst (update_best_ap_loop xs v s)),
    fst (trusted_latest_timestamp (fst (update_best_ap_loop xs v s))))
     = run_max (candidate_seconds s0 True) xs
         (trusted_best_ap v, fst (trusted_latest_timestamp v))
   \<and> (untrusted_best_ap (fst (update_best_ap_loop xs v s)),
      fst (untrusted_latest_timestamp (fst (update_best_ap_loop xs v s))))
     = run_max (candidate_seconds s0 False) xs
         (untrusted_best_ap v, fst (untrusted_latest_timestamp v))"
proof (induction xs arbitrary: v s)
  case Nil
  then show ?case by simp
next
  case (Cons x xs)
  show ?case
  proof (cases "allowed_match s x")
    case None
    then have "allowed_match s0 x = None" using Cons.prems by (simp add: veq_match)
    then have c: "candidate_seconds s0 True x = None" "candidate_seconds s0 False x = None"
      by (simp_all add: candidate_seconds_def)
    show ?thesis using None c Cons.IH [OF Cons.prems]
      by (simp add: loop_step del: update_best_ap_loop.simps)
  next
    case (Some t)
    have m: "allowed_match s0 x = Some t" using Cons.prems Some by (simp add: veq_match)
    have f: "ap_trusted (aps s t) = ap_trusted (aps s0 t)"
      "ap_timestamp (aps s t) = ap_timestamp (aps s0 t)"
      using Cons.prems by (simp_all add: veq_def)
    have a: "veq s0 (copy_key x t s)" using Cons.prems by (rule veq_copy_key)
    show ?thesis
      using Some m f Cons.IH [OF a] Cons.IH [OF Cons.prems]
      by (simp add: loop_step candidate_seconds_def del: update_best_ap_loop.simps)
  qed
qed

lemma run_max_spec:
  "run_max f xs (b, m) = (b', m') \<Longrightarrow>
     m \<le> m' \<and> (\<forall>x\<in>set xs. \<forall>n. f x = Some n \<longrightarrow> n \<le> m')
     \<and> ((b' = b \<and> m' = m) \<or> (\<exists>r\<in>set xs. b' = Some r \<and> f r = Some m' \<and> m < m'))"
proof (induction xs arbitrary: b m)
  case Nil
  then show ?case by simp
next
  case (Cons x xs)
  show ?case
  proof (cases "f x")
    case None
    with Cons.prems have "run_max f xs (b, m) = (b', m')" by simp
    from Cons.IH [OF this] None show ?thesis by auto
  next
    case (Some n)
    show ?thesis
    proof (cases "n > m")
      case True
      with Cons.prems Some have "run_max f xs (Some x, n) = (b', m')" by simp
      from Cons.IH [OF this] Some True show ?thesis by auto
    next
      case False
      with Cons.prems Some have "run_max f xs (b, m) = (b', m')" by simp
      from Cons.IH [OF this] Some False show ?thesis by auto
    qed
  qed
qed

lemma loop_some_stays:
  "(trusted_best_ap v \<noteq> None \<longrightarrow> trusted_best_ap (fst (update_best_ap_loop xs v s)) \<noteq> None)
   \<and> (untrusted_best_ap v \<noteq> None \<longrightarrow> untrusted_best_ap (fst (update_best_ap_loop xs v s)) \<noteq> None)"
  by (induction xs v s rule: update_best_ap_loop.induct)
     (simp_all add: Let_def split: option.splits)

lemma loop_none_unchanged:
  "trusted_best_ap (fst (update_best_ap_loop xs v s)) = None \<Longrightarrow>
   untrusted_best_ap (fst (update_best_ap_loop xs v s)) = None \<Longrightarrow>
   snd (update_best_ap_loop xs v s) = s"
proof (induction xs arbitrary: v s)
  case Nil
  then show ?case by simp
next
  case (Cons x xs)
  show ?case
  proof (cases "allowed_match s x")
    case None
    then show ?thesis using Cons by (simp add: loop_step del: update_best_ap_loop.simps)
  next
    case (Some t)
    let ?vt = "v\<lparr>trusted_latest_timestamp := ap_timestamp (aps s t), trusted_best_ap := Some x\<rparr>"
    let ?vu = "v\<lparr>untrusted_latest_timestamp := ap_timestamp (aps s t), untrusted_best_ap := Some x\<rparr>"
    have t: "trusted_best_ap (fst (update_best_ap_loop xs ?vt (copy_key x t s))) \<noteq> None"
      using loop_some_stays [of ?vt xs "copy_key x t s"] by simp
    have u: "untrusted_best_ap (fst (update_best_ap_loop xs ?vu (copy_key x t s))) \<noteq> None"
      using loop_some_stays [of ?vu xs "copy_key x t s"] by simp
    consider (T) "ap_trusted (aps s t) \<and> fst (ap_timestamp (aps s t)) > fst (trusted_latest_timestamp v)"
      | (U) "\<not> (ap_trusted (aps s t) \<and> fst (ap_timestamp (aps s t)) > fst (trusted_latest_timestamp v))"
            "\<not> ap_trusted (aps s t) \<and> fst (ap_timestamp (aps s t)) > fst (untrusted_latest_timestamp v)"
      | (N) "\<not> (ap_trusted (aps s t) \<and> fst (ap_timestamp (aps s t)) > fst (trusted_latest_timestamp v))"
            "\<not> (\<not> ap_trusted (aps s t) \<and> fst (ap_timestamp (aps s t)) > fst (untrusted_latest_timestamp v))"
      by blast
    then show ?thesis
    proof cases
      case T
      then have "update_best_ap_loop (x # xs) v s = update_best_ap_loop xs ?vt (copy_key x t s)"
        using Some by (auto simp: loop_step simp del: update_best_ap_loop.simps)
      with Cons.prems(1) t show ?thesis by simp
    next
      case U
      then have "update_best_ap_loop (x # xs) v s = update_best_ap_loop xs ?vu (copy_key x t s)"
        using Some by (auto simp: loop_step simp del: update_best_ap_loop.simps)
      with Cons.prems(2) u show ?thesis by simp
    next
      case N
      then have "update_best_ap_loop (x # xs) v s = update_best_ap_loop xs v s"
        using Some by (auto simp: loop_step simp del: update_best_ap_loop.simps)
      with Cons.prems Cons.IH [of v s] show ?thesis by simp
    qed
  qed
qed

text \<open>
  What the part after the freeze test selects, whatever the freeze flag was: a trusted
  candidate with the highest seconds if there is one, else an untrusted one with the
  highest seconds, else none (and then the radio is reset); the chosen access point
  carries the key of its allowed entry.
\<close>

lemma select_pick:
  assumes w: "nm_device_is_wireless (dev s)"
  shows "(case best_ap (dev (update_best_ap_select l s)) of
            Some b \<Rightarrow>
              b \<in> set l
              \<and> (\<exists>t. allowed_match s b = Some t
                    \<and> 0 < fst (ap_timestamp (aps s t))
                    \<and> ap_enc_key_source (aps (update_best_ap_select l s) b)
                        = ap_enc_key_source (aps s t)
                    \<and> ap_enc_method (aps (update_best_ap_select l s) b) = ap_enc_method (aps s t)
                    \<and> (\<forall>r\<in>set l. \<forall>n. candidate_seconds s (ap_trusted (aps s t)) r = Some n
                            \<longrightarrow> n \<le> fst (ap_timestamp (aps s t)))
                    \<and> (\<not> ap_trusted (aps s t) \<longrightarrow>
                          (\<forall>r\<in>set l. \<forall>n. candidate_seconds s True r = Some n \<longrightarrow> n \<le> 0)))
          | None \<Rightarrow>
              (\<forall>r\<in>set l. \<forall>tr n. candidate_seconds s tr r = Some n \<longrightarrow> n \<le> 0)
              \<and> update_best_ap_select l s
                  = radio_reset (s\<lparr>dev := (dev s)\<lparr>best_ap := None, freeze_best_ap := False\<rparr>\<rparr>))
       \<and> \<not> freeze_best_ap (dev (update_best_ap_select l s))"
proof -
  let ?r = "update_best_ap_loop l best_ap_vars_init s"
  let ?v = "fst ?r" and ?s1 = "snd ?r"
  let ?s' = "update_best_ap_select l s"
  have best: "best_ap (dev ?s') = (case trusted_best_ap ?v of Some r \<Rightarrow> Some r | None \<Rightarrow> untrusted_best_ap ?v)"
    and unfrozen: "\<not> freeze_best_ap (dev ?s')"
    and heap: "aps ?s' = aps ?s1"
    using w by (rule select_best)+
  have v0: "veq s s" by (rule veq_refl)
  have k0: "keys_from_match s s" by (simp add: keys_from_match_def)
  have b0: "best_has_key s (trusted_best_ap best_ap_vars_init) s"
    "best_has_key s (untrusted_best_ap best_ap_vars_init) s"
    by (simp_all add: best_has_key_def best_ap_vars_init_def)
  from loop_best_key [OF v0 k0 b0]
  have kT: "best_has_key s (trusted_best_ap ?v) ?s1" and kU: "best_has_key s (untrusted_best_ap ?v) ?s1"
    by simp_all
  from loop_run_max [OF v0, of l best_ap_vars_init]
  have rT: "run_max (candidate_seconds s True) l (None, 0)
              = (trusted_best_ap ?v, fst (trusted_latest_timestamp ?v))"
    and rU: "run_max (candidate_seconds s False) l (None, 0)
              = (untrusted_best_ap ?v, fst (untrusted_latest_timestamp ?v))"
    by (simp_all add: best_ap_vars_init_def)
  note sT = run_max_spec [OF rT] and sU = run_max_spec [OF rU]
  have keyeq: "\<And>b. keyof ?s' b = keyof ?s1 b" by (simp add: keyof_def heap)
  show ?thesis
  proof (cases "trusted_best_ap ?v")
    case (Some b)
    then have bb: "best_ap (dev ?s') = Some b" using best by simp
    from sT Some obtain m where m: "b \<in> set l" "candidate_seconds s True b = Some m" "0 < m"
      "\<forall>x\<in>set l. \<forall>n. candidate_seconds s True x = Some n \<longrightarrow> n \<le> m"
      by auto
    from m(2) obtain t where t: "allowed_match s b = Some t" "ap_trusted (aps s t)"
      "fst (ap_timestamp (aps s t)) = m"
      by (auto simp: candidate_seconds_def split: option.splits if_splits)
    from kT Some t(1) have "keyof ?s1 b = keyof s t" by (simp add: best_has_key_def)
    then have "keyof ?s' b = keyof s t" by (simp add: keyeq)
    then have ke: "ap_enc_key_source (aps ?s' b) = ap_enc_key_source (aps s t)"
      "ap_enc_method (aps ?s' b) = ap_enc_method (aps s t)"
      by (simp_all add: keyof_def)
    show ?thesis
      using bb m t ke unfrozen by auto
  next
    case None
    with sT have noT: "\<forall>x\<in>set l. \<forall>n. candidate_seconds s True x = Some n \<longrightarrow> n \<le> 0"
      by auto
    show ?thesis
    proof (cases "untrusted_best_ap ?v")
      case (Some b)
      then have bb: "best_ap (dev ?s') = Some b" using best None by simp
      from sU Some obtain m where m: "b \<in> set l" "candidate_seconds s False b = Some m" "0 < m"
        "\<forall>x\<in>set l. \<forall>n. candidate_seconds s False x = Some n \<longrightarrow> n \<le> m"
        by auto
      from m(2) obtain t where t: "allowed_match s b = Some t" "\<not> ap_trusted (aps s t)"
        "fst (ap_timestamp (aps s t)) = m"
        by (auto simp: candidate_seconds_def split: option.splits if_splits)
      from kU Some t(1) have "keyof ?s1 b = keyof s t" by (simp add: best_has_key_def)
      then have "keyof ?s' b = keyof s t" by (simp add: keyeq)
      then have ke: "ap_enc_key_source (aps ?s' b) = ap_enc_key_source (aps s t)"
        "ap_enc_method (aps ?s' b) = ap_enc_method (aps s t)"
        by (simp_all add: keyof_def)
      show ?thesis
        using bb m t ke unfrozen noT by auto
    next
      case None2: None
      with sU have noU: "\<forall>x\<in>set l. \<forall>n. candidate_seconds s False x = Some n \<longrightarrow> n \<le> 0"
        by auto
      have no: "\<forall>r\<in>set l. \<forall>tr n. candidate_seconds s tr r = Some n \<longrightarrow> n \<le> 0"
      proof (intro ballI allI impI)
        fix r tr n assume "r \<in> set l" "candidate_seconds s tr r = Some n"
        then show "n \<le> 0" using noT noU by (cases tr) auto
      qed
      have bb: "best_ap (dev ?s') = None" using best None None2 by simp
      have s1: "?s1 = s" using None None2 by (rule loop_none_unchanged)
      have "?s' = radio_reset (nm_device_set_best_ap None s)"
        using None None2 s1 by (simp add: select_eq Let_def)
      then have "?s' = radio_reset (s\<lparr>dev := (dev s)\<lparr>best_ap := None, freeze_best_ap := False\<rparr>\<rparr>)"
        using w by (simp add: nm_device_set_best_ap_def nm_device_unfreeze_best_ap_def
              nm_device_is_wireless_def)
      then show ?thesis using bb no unfrozen by simp
    qed
  qed
qed

lemma get_ap_by_essid_dev:
  "nm_ap_list_get_ap_by_essid (s\<lparr>dev := d\<rparr>) l e = nm_ap_list_get_ap_by_essid s l e"
  by (cases e) (simp_all add: nm_ap_list_get_ap_by_essid_def)

lemma allowed_match_dev: "allowed_match (s\<lparr>dev := d\<rparr>) r = allowed_match s r"
  by (simp add: allowed_match_def get_ap_by_essid_dev)

lemma candidate_seconds_dev:
  "candidate_seconds (s\<lparr>dev := d\<rparr>) tr r = candidate_seconds s tr r"
  by (simp add: candidate_seconds_def allowed_match_dev split: option.splits)

text \<open>
  C3.  If the best access point is frozen (on a wireless device),
  \<open>nm_device_update_best_ap\<close> leaves everything as it is exactly when the frozen access
  point's ESSID is still in the device's list and not in the invalid list, or the
  access point is user-created.  Otherwise the freeze flag is clear afterwards and the
  selection is recomputed from the device's list \<open>l\<close>: the new best access point is a
  trusted candidate with the highest seconds if there is one, else an untrusted one
  with the highest seconds (each with the key of its allowed entry), else none, in
  which case the radio is reset.  (A device that has no list, which happens only
  while it is torn down, is left as it is by the guard at the function's entry.)
\<close>

theorem frozen_best_ap_kept_exactly:
  assumes w: "nm_device_is_wireless (dev s)"
    and fr: "freeze_best_ap (dev s)"
  shows "case ap_list (dev s) of
           None \<Rightarrow> nm_device_update_best_ap s = s
         | Some l \<Rightarrow>
            ((nm_device_update_best_ap s = s) =
               (\<exists>b. best_ap (dev s) = Some b
                  \<and> ((nm_ap_list_get_ap_by_essid s (invalid_ap_list (app_data s))
                          (ap_essid (aps s b)) = None
                       \<and> nm_ap_list_get_ap_by_essid s l (ap_essid (aps s b)) \<noteq> None)
                      \<or> ap_user_created (aps s b))))
            \<and> (nm_device_update_best_ap s \<noteq> s \<longrightarrow>
                 \<not> freeze_best_ap (dev (nm_device_update_best_ap s))
               \<and> (case best_ap (dev (nm_device_update_best_ap s)) of
                     Some b \<Rightarrow>
                       b \<in> set l
                       \<and> (\<exists>t. allowed_match s b = Some t
                             \<and> 0 < fst (ap_timestamp (aps s t))
                             \<and> ap_enc_key_source (aps (nm_device_update_best_ap s) b)
                                 = ap_enc_key_source (aps s t)
                             \<and> ap_enc_method (aps (nm_device_update_best_ap s) b)
                                 = ap_enc_method (aps s t)
                             \<and> (\<forall>r\<in>set l. \<forall>n. candidate_seconds s (ap_trusted (aps s t)) r = Some n
                                     \<longrightarrow> n \<le> fst (ap_timestamp (aps s t)))
                             \<and> (\<not> ap_trusted (aps s t) \<longrightarrow>
                                   (\<forall>r\<in>set l. \<forall>n. candidate_seconds s True r = Some n
                                       \<longrightarrow> n \<le> 0)))
                   | None \<Rightarrow>
                       (\<forall>r\<in>set l. \<forall>tr n. candidate_seconds s tr r = Some n \<longrightarrow> n \<le> 0)
                       \<and> nm_device_update_best_ap s
                           = radio_reset (s\<lparr>dev := (dev s)\<lparr>best_ap := None,
                                                             freeze_best_ap := False\<rparr>\<rparr>)))"
proof (cases "ap_list (dev s)")
  case None
  then show ?thesis by (simp add: nm_device_update_best_ap_def)
next
  case (Some l)
  let ?u = "s\<lparr>dev := (dev s)\<lparr>freeze_best_ap := False\<rparr>\<rparr>"
  let ?s' = "nm_device_update_best_ap s"
  have kept: "frozen_best_ap_kept s =
           (\<exists>b. best_ap (dev s) = Some b
              \<and> ((nm_ap_list_get_ap_by_essid s (invalid_ap_list (app_data s)) (ap_essid (aps s b)) = None
                   \<and> nm_ap_list_get_ap_by_essid s l (ap_essid (aps s b)) \<noteq> None)
                  \<or> ap_user_created (aps s b)))"
    using w Some
    by (auto simp: frozen_best_ap_kept_def nm_device_get_best_ap_def
          nm_device_ap_list_get_ap_by_essid_def nm_ap_list_get_ap_by_essid_def
        split: option.splits)
  have unf: "nm_device_unfreeze_best_ap s = ?u"
    using w by (simp add: nm_device_unfreeze_best_ap_def)
  have wu: "nm_device_is_wireless (dev ?u)" using w by (simp add: nm_device_is_wireless_def)
  have upd: "?s' = (if frozen_best_ap_kept s then s else update_best_ap_select l ?u)"
    using w Some fr by (simp add: nm_device_update_best_ap_def nm_device_is_best_ap_frozen_def unf)
  have nf: "\<not> freeze_best_ap (dev (update_best_ap_select l ?u))"
    using wu by (rule select_unfrozen)
  have ne: "update_best_ap_select l ?u \<noteq> s"
    using nf fr by auto
  have same: "(?s' = s) = frozen_best_ap_kept s"
    using upd ne by auto
  have reset: "radio_reset (?u\<lparr>dev := (dev ?u)\<lparr>best_ap := None, freeze_best_ap := False\<rparr>\<rparr>)
                 = radio_reset (s\<lparr>dev := (dev s)\<lparr>best_ap := None, freeze_best_ap := False\<rparr>\<rparr>)"
    by simp
  have aps: "aps ?u = aps s" by simp
  have pick: "?s' \<noteq> s \<Longrightarrow>
       \<not> freeze_best_ap (dev ?s')
       \<and> (case best_ap (dev ?s') of
             Some b \<Rightarrow>
               b \<in> set l
               \<and> (\<exists>t. allowed_match s b = Some t
                     \<and> 0 < fst (ap_timestamp (aps s t))
                     \<and> ap_enc_key_source (aps ?s' b) = ap_enc_key_source (aps s t)
                     \<and> ap_enc_method (aps ?s' b) = ap_enc_method (aps s t)
                     \<and> (\<forall>r\<in>set l. \<forall>n. candidate_seconds s (ap_trusted (aps s t)) r = Some n
                             \<longrightarrow> n \<le> fst (ap_timestamp (aps s t)))
                     \<and> (\<not> ap_trusted (aps s t) \<longrightarrow>
                           (\<forall>r\<in>set l. \<forall>n. candidate_seconds s True r = Some n \<longrightarrow> n \<le> 0)))
           | None \<Rightarrow>
               (\<forall>r\<in>set l. \<forall>tr n. candidate_seconds s tr r = Some n \<longrightarrow> n \<le> 0)
               \<and> ?s' = radio_reset (s\<lparr>dev := (dev s)\<lparr>best_ap := None,
                                                     freeze_best_ap := False\<rparr>\<rparr>))"
  proof -
    assume "?s' \<noteq> s"
    then have e: "?s' = update_best_ap_select l ?u" using upd by (simp split: if_splits)
    show ?thesis
      unfolding e
      using select_pick [OF wu, of l]
      unfolding allowed_match_dev candidate_seconds_dev aps reset
      by simp
  qed
  show ?thesis
    using Some same kept pick by simp
qed

theorem frozen_best_ap_kept_exactly_witness:
  "nm_device_is_wireless (dev ex_frozen_visible)
   \<and> freeze_best_ap (dev ex_frozen_visible)
   \<and> ap_list (dev ex_frozen_visible) = Some [0, 1]
   \<and> nm_device_update_best_ap ex_frozen_visible = ex_frozen_visible
   \<and> nm_device_is_wireless (dev ex_frozen_gone)
   \<and> freeze_best_ap (dev ex_frozen_gone)
   \<and> ap_list (dev ex_frozen_gone) = Some [1]
   \<and> best_ap (dev ex_frozen_gone) = Some 0
   \<and> nm_ap_list_get_ap_by_essid ex_frozen_gone [1] (ap_essid (aps ex_frozen_gone 0)) = None
   \<and> nm_device_update_best_ap ex_frozen_gone \<noteq> ex_frozen_gone
   \<and> \<not> freeze_best_ap (dev (nm_device_update_best_ap ex_frozen_gone))
   \<and> best_ap (dev (nm_device_update_best_ap ex_frozen_gone)) = Some 1
   \<and> allowed_match ex_frozen_gone 1 = Some 2
   \<and> ap_enc_key_source (aps (nm_device_update_best_ap ex_frozen_gone) 1) = Some ''deadbeef01''"
proof -
  have v: "nm_device_is_wireless (dev ex_frozen_visible)"
    "freeze_best_ap (dev ex_frozen_visible)"
    and lv: "ap_list (dev ex_frozen_visible) = Some [0, 1]"
    by (simp_all add: ex_frozen_visible_def ex_state_def ex_dev_def nm_device_is_wireless_def)
  have g: "nm_device_is_wireless (dev ex_frozen_gone)"
    "freeze_best_ap (dev ex_frozen_gone)"
    and lg: "ap_list (dev ex_frozen_gone) = Some [1]"
    and bg: "best_ap (dev ex_frozen_gone) = Some 0"
    by (simp_all add: ex_frozen_gone_def ex_frozen_visible_def ex_state_def ex_dev_def
          nm_device_is_wireless_def)
  have kv: "\<exists>b. best_ap (dev ex_frozen_visible) = Some b
      \<and> ((nm_ap_list_get_ap_by_essid ex_frozen_visible
             (invalid_ap_list (app_data ex_frozen_visible)) (ap_essid (aps ex_frozen_visible b)) = None
           \<and> nm_ap_list_get_ap_by_essid ex_frozen_visible [0, 1] (ap_essid (aps ex_frozen_visible b)) \<noteq> None)
          \<or> ap_user_created (aps ex_frozen_visible b))"
    by (simp add: ex_frozen_visible_def ex_state_def ex_dev_def ex_data_def ex_home_ap_def
          nm_ap_new_def nm_ap_list_get_ap_by_essid_def)
  have gone: "nm_ap_list_get_ap_by_essid ex_frozen_gone [1] (ap_essid (aps ex_frozen_gone 0)) = None"
    "\<not> ap_user_created (aps ex_frozen_gone 0)"
    by (simp_all add: ex_frozen_gone_def ex_frozen_visible_def ex_state_def ex_dev_def ex_data_def
          ex_home_ap_def ex_work_ap_def nm_ap_new_def nm_ap_list_get_ap_by_essid_def)
  have kg: "\<not> (\<exists>b. best_ap (dev ex_frozen_gone) = Some b
      \<and> ((nm_ap_list_get_ap_by_essid ex_frozen_gone
             (invalid_ap_list (app_data ex_frozen_gone)) (ap_essid (aps ex_frozen_gone b)) = None
           \<and> nm_ap_list_get_ap_by_essid ex_frozen_gone [1] (ap_essid (aps ex_frozen_gone b)) \<noteq> None)
          \<or> ap_user_created (aps ex_frozen_gone b)))"
    using bg gone by simp
  have b1: "best_ap (dev (nm_device_update_best_ap ex_frozen_gone)) = Some 1"
    by (simp add: ex_frozen_gone_def ex_frozen_visible_def ex_simps update_best_ap_simps
          frozen_best_ap_kept_def nm_device_get_best_ap_def
          nm_device_ap_list_get_ap_by_essid_def)
  have m: "allowed_match ex_frozen_gone 1 = Some 2"
    by (simp add: allowed_match_def ex_frozen_gone_def ex_frozen_visible_def ex_simps
          nm_ap_list_get_ap_by_essid_def)
  have k: "ap_enc_key_source (aps ex_frozen_gone 2) = Some ''deadbeef01''"
    by (simp add: ex_frozen_gone_def ex_frozen_visible_def ex_simps)
  from frozen_best_ap_kept_exactly [OF v] frozen_best_ap_kept_exactly [OF g]
    v g lv lg bg gone kv kg b1 m k
  show ?thesis by simp
qed

text \<open>
  C2 (amended).  When the best access point is not frozen (on a wireless device that
  has a list), \<open>nm_device_update_best_ap\<close> skips every visible access point whose ESSID
  is in the invalid list, and among those that match an allowed entry \<^emph>\<open>whose
  timestamp has positive seconds\<close> it tracks the trusted and the untrusted one with
  the highest seconds, copying the allowed entry's key and key type onto it.  The
  result is a trusted candidate with the highest seconds if there is one, else an
  untrusted one with the highest seconds, else none; with none, the radio's ESSID is
  set to a single space, its key is disabled and the interface is brought up.  The
  freeze flag is clear afterwards.
\<close>

theorem update_best_ap_selection:
  assumes w: "nm_device_is_wireless (dev s)"
    and l: "ap_list (dev s) = Some l"
    and nf: "\<not> freeze_best_ap (dev s)"
  shows "(case best_ap (dev (nm_device_update_best_ap s)) of
            Some b \<Rightarrow>
              b \<in> set l
              \<and> (\<exists>t. allowed_match s b = Some t
                    \<and> 0 < fst (ap_timestamp (aps s t))
                    \<and> ap_enc_key_source (aps (nm_device_update_best_ap s) b)
                        = ap_enc_key_source (aps s t)
                    \<and> ap_enc_method (aps (nm_device_update_best_ap s) b) = ap_enc_method (aps s t)
                    \<and> (\<forall>r\<in>set l. \<forall>n. candidate_seconds s (ap_trusted (aps s t)) r = Some n
                            \<longrightarrow> n \<le> fst (ap_timestamp (aps s t)))
                    \<and> (\<not> ap_trusted (aps s t) \<longrightarrow>
                          (\<forall>r\<in>set l. \<forall>n. candidate_seconds s True r = Some n \<longrightarrow> n \<le> 0)))
          | None \<Rightarrow>
              (\<forall>r\<in>set l. \<forall>tr n. candidate_seconds s tr r = Some n \<longrightarrow> n \<le> 0)
              \<and> nm_device_update_best_ap s
                  = radio_reset (s\<lparr>dev := (dev s)\<lparr>best_ap := None, freeze_best_ap := False\<rparr>\<rparr>))
       \<and> \<not> freeze_best_ap (dev (nm_device_update_best_ap s))"
proof -
  let ?r = "update_best_ap_loop l best_ap_vars_init s"
  let ?v = "fst ?r" and ?s1 = "snd ?r"
  let ?s' = "nm_device_update_best_ap s"
  have upd: "?s' = update_best_ap_select l s"
    using w l nf by (simp add: nm_device_update_best_ap_def nm_device_is_best_ap_frozen_def)
  have best: "best_ap (dev ?s') = (case trusted_best_ap ?v of Some r \<Rightarrow> Some r | None \<Rightarrow> untrusted_best_ap ?v)"
    and unfrozen: "\<not> freeze_best_ap (dev ?s')"
    and heap: "aps ?s' = aps ?s1"
    unfolding upd using w by (rule select_best)+
  have v0: "veq s s" by (rule veq_refl)
  have k0: "keys_from_match s s" by (simp add: keys_from_match_def)
  have b0: "best_has_key s (trusted_best_ap best_ap_vars_init) s"
    "best_has_key s (untrusted_best_ap best_ap_vars_init) s"
    by (simp_all add: best_has_key_def best_ap_vars_init_def)
  from loop_best_key [OF v0 k0 b0]
  have kT: "best_has_key s (trusted_best_ap ?v) ?s1" and kU: "best_has_key s (untrusted_best_ap ?v) ?s1"
    by simp_all
  from loop_run_max [OF v0, of l best_ap_vars_init]
  have rT: "run_max (candidate_seconds s True) l (None, 0)
              = (trusted_best_ap ?v, fst (trusted_latest_timestamp ?v))"
    and rU: "run_max (candidate_seconds s False) l (None, 0)
              = (untrusted_best_ap ?v, fst (untrusted_latest_timestamp ?v))"
    by (simp_all add: best_ap_vars_init_def)
  note sT = run_max_spec [OF rT] and sU = run_max_spec [OF rU]
  have keyeq: "\<And>b. keyof ?s' b = keyof ?s1 b" by (simp add: keyof_def heap)
  show ?thesis
  proof (cases "trusted_best_ap ?v")
    case (Some b)
    then have bb: "best_ap (dev ?s') = Some b" using best by simp
    from sT Some obtain m where m: "b \<in> set l" "candidate_seconds s True b = Some m" "0 < m"
      "\<forall>x\<in>set l. \<forall>n. candidate_seconds s True x = Some n \<longrightarrow> n \<le> m"
      by auto
    from m(2) obtain t where t: "allowed_match s b = Some t" "ap_trusted (aps s t)"
      "fst (ap_timestamp (aps s t)) = m"
      by (auto simp: candidate_seconds_def split: option.splits if_splits)
    from kT Some t(1) have "keyof ?s1 b = keyof s t" by (simp add: best_has_key_def)
    then have "keyof ?s' b = keyof s t" by (simp add: keyeq)
    then have ke: "ap_enc_key_source (aps ?s' b) = ap_enc_key_source (aps s t)"
      "ap_enc_method (aps ?s' b) = ap_enc_method (aps s t)"
      by (simp_all add: keyof_def)
    show ?thesis
      using bb m t ke unfrozen by auto
  next
    case None
    with sT have noT: "\<forall>x\<in>set l. \<forall>n. candidate_seconds s True x = Some n \<longrightarrow> n \<le> 0"
      by auto
    show ?thesis
    proof (cases "untrusted_best_ap ?v")
      case (Some b)
      then have bb: "best_ap (dev ?s') = Some b" using best None by simp
      from sU Some obtain m where m: "b \<in> set l" "candidate_seconds s False b = Some m" "0 < m"
        "\<forall>x\<in>set l. \<forall>n. candidate_seconds s False x = Some n \<longrightarrow> n \<le> m"
        by auto
      from m(2) obtain t where t: "allowed_match s b = Some t" "\<not> ap_trusted (aps s t)"
        "fst (ap_timestamp (aps s t)) = m"
        by (auto simp: candidate_seconds_def split: option.splits if_splits)
      from kU Some t(1) have "keyof ?s1 b = keyof s t" by (simp add: best_has_key_def)
      then have "keyof ?s' b = keyof s t" by (simp add: keyeq)
      then have ke: "ap_enc_key_source (aps ?s' b) = ap_enc_key_source (aps s t)"
        "ap_enc_method (aps ?s' b) = ap_enc_method (aps s t)"
        by (simp_all add: keyof_def)
      show ?thesis
        using bb m t ke unfrozen noT by auto
    next
      case None2: None
      with sU have noU: "\<forall>x\<in>set l. \<forall>n. candidate_seconds s False x = Some n \<longrightarrow> n \<le> 0"
        by auto
      have no: "\<forall>r\<in>set l. \<forall>tr n. candidate_seconds s tr r = Some n \<longrightarrow> n \<le> 0"
      proof (intro ballI allI impI)
        fix r tr n assume "r \<in> set l" "candidate_seconds s tr r = Some n"
        then show "n \<le> 0" using noT noU by (cases tr) auto
      qed
      have bb: "best_ap (dev ?s') = None" using best None None2 by simp
      have s1: "?s1 = s" using None None2 by (rule loop_none_unchanged)
      have "?s' = radio_reset (nm_device_set_best_ap None s)"
        using None None2 s1 by (simp add: upd select_eq Let_def)
      then have "?s' = radio_reset (s\<lparr>dev := (dev s)\<lparr>best_ap := None, freeze_best_ap := False\<rparr>\<rparr>)"
        using w by (simp add: nm_device_set_best_ap_def nm_device_unfreeze_best_ap_def
              nm_device_is_wireless_def)
      then show ?thesis using bb no unfrozen by simp
    qed
  qed
qed

theorem update_best_ap_selection_witness:
  "nm_device_is_wireless (dev ex_select)
   \<and> ap_list (dev ex_select) = Some [0, 1, 3]
   \<and> \<not> freeze_best_ap (dev ex_select)
   \<and> best_ap (dev (nm_device_update_best_ap ex_select)) = Some 1
   \<and> allowed_match ex_select 1 = Some 2
   \<and> ap_enc_key_source (aps (nm_device_update_best_ap ex_select) 1) = Some ''deadbeef01''"
proof -
  have h: "nm_device_is_wireless (dev ex_select)" "ap_list (dev ex_select) = Some [0, 1, 3]"
    "\<not> freeze_best_ap (dev ex_select)"
    by (simp_all add: ex_select_def ex_simps nm_device_is_wireless_def)
  have b: "best_ap (dev (nm_device_update_best_ap ex_select)) = Some 1"
    by (simp add: ex_select_def ex_simps update_best_ap_simps)
  have m: "allowed_match ex_select 1 = Some 2"
    by (simp add: allowed_match_def ex_select_def ex_simps nm_ap_list_get_ap_by_essid_def)
  have k: "ap_enc_key_source (aps ex_select 2) = Some ''deadbeef01''"
    by (simp add: ex_select_def ex_simps)
  from update_best_ap_selection [OF h] b m k h show ?thesis
    by simp
qed

text \<open>
  The claim as first stated fails on an allowed entry whose timestamp is zero: the
  visible access point "home" matches a trusted allowed entry, nothing is invalid,
  and yet no best access point results.
\<close>

theorem update_best_ap_epoch_counterexample:
  "nm_device_is_wireless (dev ex_epoch)
   \<and> ap_list (dev ex_epoch) = Some [0]
   \<and> \<not> freeze_best_ap (dev ex_epoch)
   \<and> invalid_ap_list (app_data ex_epoch) = []
   \<and> nm_ap_list_get_ap_by_essid ex_epoch (allowed_ap_list (app_data ex_epoch))
        (ap_essid (aps ex_epoch 0)) = Some 1
   \<and> ap_trusted (aps ex_epoch 1)
   \<and> best_ap (dev (nm_device_update_best_ap ex_epoch)) = None"
  by (simp add: ex_epoch_def ex_simps update_best_ap_simps)

section \<open>The reply to a key request\<close>


lemma select_essid:
  "ap_essid (aps (update_best_ap_select l u) r) = ap_essid (aps u r)"
proof -
  have "veq u (snd (update_best_ap_loop l best_ap_vars_init u))"
    using veq_refl by (rule loop_veq)
  then show ?thesis
    by (simp add: select_eq Let_def radio_reset_frame set_best_ap_frame veq_def)
qed

lemma update_best_ap_essid:
  "ap_essid (aps (nm_device_update_best_ap s) r) = ap_essid (aps s r)"
  by (auto simp: nm_device_update_best_ap_def nm_device_unfreeze_best_ap_def select_essid
        split: option.splits)



text \<open>
  What holds of \<open>nm_device_set_user_key_for_network\<close> on every wireless device: the
  test for a cancellation compares the first bytes of the reply, as many as the marker has, with the marker;
  the key-received flag is set in every case; and a reply that does not begin with
  the marker is stored as the key of the current best access point when that access
  point's ESSID is the requested one, and changes nothing else.
\<close>

lemma cancel_test_is_prefix:
  "strncmp_eq key cancel_message (length cancel_message)
     = (take (length cancel_message) key = cancel_message)"
  by (simp add: strncmp_eq_def)

lemma set_user_key_flag:
  "nm_device_is_wireless (dev s) \<Longrightarrow>
     user_key_received (dev (nm_device_set_user_key_for_network il network key m s))"
  by (simp add: nm_device_set_user_key_for_network_def Let_def)

lemma set_user_key_stored:
  assumes "nm_device_is_wireless (dev s)"
    and "take (length cancel_message) key \<noteq> cancel_message"
  shows "nm_device_set_user_key_for_network il network key m s
           = (case best_ap (dev s) of
                Some b \<Rightarrow>
                  if ap_essid (aps s b) = Some network
                  then s\<lparr>aps := (aps s)(b := (aps s b)\<lparr>ap_enc_key_source := Some key,
                                                       ap_enc_method := m\<rparr>),
                         dev := (dev s)\<lparr>user_key_received := True\<rparr>\<rparr>
                  else s\<lparr>dev := (dev s)\<lparr>user_key_received := True\<rparr>\<rparr>
              | None \<Rightarrow> s\<lparr>dev := (dev s)\<lparr>user_key_received := True\<rparr>\<rparr>)"
  using assms
  by (auto simp: nm_device_set_user_key_for_network_def cancel_test_is_prefix Let_def
        nm_device_get_best_ap_def nm_null_safe_strcmp_eq_def nm_ap_set_enc_key_source_def
      split: option.splits)

lemma set_user_key_cancelled:
  assumes "nm_device_is_wireless (dev s)"
    and "take (length cancel_message) key = cancel_message"
  shows "nm_device_set_user_key_for_network il network key m s
           = (let s2 = (case nm_device_ap_list_get_ap_by_essid s (Some network) of
                          Some a \<Rightarrow>
                            (if il then invalid_list_append_ap (ap_next s)
                                          (snd (nm_ap_new_from_ap a s))
                             else snd (nm_ap_new_from_ap a s))
                        | None \<Rightarrow> s);
                  s3 = nm_device_update_best_ap s2
              in s3\<lparr>dev := (dev s3)\<lparr>user_key_received := True\<rparr>\<rparr>)"
  using assms
  by (simp add: nm_device_set_user_key_for_network_def cancel_test_is_prefix Let_def
        nm_ap_new_from_ap_def split: option.splits)

lemmas set_user_key_simps =
  nm_device_set_user_key_for_network_def strncmp_eq_def cancel_message_def
  nm_device_ap_list_get_ap_by_essid_def nm_ap_new_from_ap_def invalid_list_append_ap_def
  nm_device_get_best_ap_def nm_null_safe_strcmp_eq_def frozen_best_ap_kept_def

text \<open>
  On the device that waits for the key of "wifi" (its best access point, 0): the
  marker itself puts a copy of the access point (2) on the invalid list and leaves no
  best access point; a key is stored on the best access point and the invalid list
  stays empty.
\<close>

lemma set_user_key_examples:
  "nm_device_is_wireless (dev ex_key_wait)
   \<and> invalid_ap_list (app_data (nm_device_set_user_key_for_network True ''wifi''
         ''***canceled***'' NM_ENC_TYPE_UNKNOWN ex_key_wait)) = [2]
   \<and> best_ap (dev (nm_device_set_user_key_for_network True ''wifi''
         ''***canceled***'' NM_ENC_TYPE_UNKNOWN ex_key_wait)) = None
   \<and> ap_enc_key_source (aps (nm_device_set_user_key_for_network True ''wifi'' ''cafef00d11''
         NM_ENC_TYPE_HEX_KEY ex_key_wait) 0) = Some ''cafef00d11''
   \<and> invalid_ap_list (app_data (nm_device_set_user_key_for_network True ''wifi'' ''cafef00d11''
         NM_ENC_TYPE_HEX_KEY ex_key_wait)) = []"
  by (simp add: ex_key_wait_def ex_wifi_ap_def ex_simps set_user_key_simps
        update_best_ap_simps)

text \<open>
  C4.  The claim is that a key reply is treated as a cancellation exactly when it
  equals the exact bytes \<open>***canceled***\<close>, and that any other reply is stored as the
  key of the current best access point when that access point's ESSID matches the
  request.  The code does otherwise: it compares with \<open>strncmp\<close> over the length of the
  marker, so a key that only begins with the marker is taken for a cancellation.  On
  the device that waits for the key of "wifi", the reply \<open>***canceled*** is not what I
  typed\<close> is not the marker and the best access point has the requested ESSID, and yet
  the reply is not stored as its key: a copy of the access point is put on the invalid
  list and no best access point is left.
\<close>

theorem set_user_key_prefix_taken_for_cancel:
  "''***canceled*** is not what I typed'' \<noteq> cancel_message
   \<and> nm_device_is_wireless (dev ex_key_wait)
   \<and> best_ap (dev ex_key_wait) = Some 0
   \<and> ap_essid (aps ex_key_wait 0) = Some ''wifi''
   \<and> ap_enc_key_source (aps (nm_device_set_user_key_for_network True ''wifi''
         ''***canceled*** is not what I typed'' NM_ENC_TYPE_ASCII_KEY ex_key_wait) 0) = None
   \<and> invalid_ap_list (app_data (nm_device_set_user_key_for_network True ''wifi''
         ''***canceled*** is not what I typed'' NM_ENC_TYPE_ASCII_KEY ex_key_wait)) = [2]
   \<and> best_ap (dev (nm_device_set_user_key_for_network True ''wifi''
         ''***canceled*** is not what I typed'' NM_ENC_TYPE_ASCII_KEY ex_key_wait)) = None"
  by (simp add: ex_key_wait_def ex_wifi_ap_def ex_simps set_user_key_simps update_best_ap_simps)

section \<open>Probing for a network\<close>

text \<open>
  C6.  A network that is in no list is probed with Shared Key, Open System and None
  in this order.  With a card that associates under every method, the first probe
  (Shared Key) already succeeds, having used encryption; but
  \<open>nm_device_wireless_network_exists\<close> goes on, sets the ESSID three times, and returns
  what the last probe (None) saw: not encrypted.
\<close>

theorem network_exists_probes_past_first_success:
  "network_exists_auths ex_always_associates None
     = [NM_DEVICE_AUTH_METHOD_SHARED_KEY, NM_DEVICE_AUTH_METHOD_OPEN_SYSTEM,
        NM_DEVICE_AUTH_METHOD_NONE]
   \<and> fst (network_exists_probe ''cloaked'' None NM_ENC_TYPE_UNKNOWN
            NM_DEVICE_AUTH_METHOD_SHARED_KEY
            \<lparr> ev_success = False, ev_temp_enc = False, ev_ap_addr = bad_addr,
              ev_encrypted = False \<rparr>
            (nm_device_set_mode NETWORK_MODE_INFRA
               (g_usleep (G_USEC_PER_SEC * 4) (nm_device_bring_up ex_always_associates))))
       = \<lparr> ev_success = True, ev_temp_enc = True, ev_ap_addr = ex_open_bssid,
           ev_encrypted = True \<rparr>
   \<and> fst (nm_device_wireless_network_exists ''cloaked'' None NM_ENC_TYPE_UNKNOWN bad_addr False
            ex_always_associates)
       = (True, ex_open_bssid, False)
   \<and> filter (\<lambda>c. c = K_SIOCSIWESSID ''cloaked'')
        (k_log (kernel (snd (nm_device_wireless_network_exists ''cloaked'' None
           NM_ENC_TYPE_UNKNOWN bad_addr False ex_always_associates))))
       = [K_SIOCSIWESSID ''cloaked'', K_SIOCSIWESSID ''cloaked'', K_SIOCSIWESSID ''cloaked'']"
  by (simp add: ex_always_associates_def ex_open_bssid_def bad_addr_def ex_simps
        network_exists_simps radio_simps)

section \<open>The snapshots and the visible list after a scan\<close>

lemma scan_results_loop_dev:
  "dev (snd (scan_results_loop ops ws lb s)) = dev s"
  by (induction ops ws lb s rule: scan_results_loop.induct) simp_all

lemma scan_converted_dev:
  "dev (snd (scan_converted ops scan s))
     = (dev s)\<lparr>cached_ap_list3 := cached_ap_list2 (dev s),
                cached_ap_list2 := cached_ap_list1 (dev s),
                cached_ap_list1 := Some (fst (fst (scan_converted ops scan s)))\<rparr>"
proof -
  obtain l b s2 where r: "scan_results_loop ops scan ([], False) (scan_shifted s) = ((l, b), s2)"
    by (metis surj_pair)
  have "dev s2 = dev (scan_shifted s)"
    using scan_results_loop_dev [of ops scan "([], False)" "scan_shifted s"] r by simp
  then show ?thesis
    by (simp add: scan_converted_def r) (simp add: scan_shifted_def)
qed

lemma get_essid_lists:
  "ap_list (dev (snd (nm_device_get_essid s))) = ap_list (dev s)"
  "cached_ap_list1 (dev (snd (nm_device_get_essid s))) = cached_ap_list1 (dev s)"
  "cached_ap_list2 (dev (snd (nm_device_get_essid s))) = cached_ap_list2 (dev s)"
  "cached_ap_list3 (dev (snd (nm_device_get_essid s))) = cached_ap_list3 (dev s)"
  "aps (snd (nm_device_get_essid s)) = aps s"
  "utils (snd (nm_device_get_essid s)) = utils s"
  by (auto simp: nm_device_get_essid_def iw_sockets_open_def klog_def Let_def
      split: option.splits prod.splits bool.splits)

lemma supports_scan_frame:
  "dev (snd (nm_device_supports_wireless_scan s)) = dev s"
  "aps (snd (nm_device_supports_wireless_scan s)) = aps s"
  "ap_next (snd (nm_device_supports_wireless_scan s)) = ap_next s"
  by (simp_all add: nm_device_supports_wireless_scan_def klog_def Let_def)

lemma append_aps_lists:
  "ap_list (dev s) = Some l \<Longrightarrow>
     ap_list (dev (device_ap_list_append_aps as s))
       = Some (foldl (nm_ap_list_append_ap (utils s) (aps s)) l as)"
  "cached_ap_list1 (dev (device_ap_list_append_aps as s)) = cached_ap_list1 (dev s)"
  "cached_ap_list2 (dev (device_ap_list_append_aps as s)) = cached_ap_list2 (dev s)"
  "cached_ap_list3 (dev (device_ap_list_append_aps as s)) = cached_ap_list3 (dev s)"
  by (simp_all add: device_ap_list_append_aps_def split: option.splits)

lemma scan_combined_dev:
  assumes "ops_keep_device ops"
  shows "dev (scan_combined ops blank old s)
     = (dev s)\<lparr>ap_list := Some (fst (nm_ap_list_combine ops (cached_ap_list1 (dev s))
                                     (cached_ap_list2 (dev s)) s))\<rparr>"
proof -
  have k: "\<And>a b u. dev (snd (nm_ap_list_combine ops a b u)) = dev u"
    "\<And>l b u. dev (nm_ap_list_copy_essids_by_address ops l b u) = dev u"
    "\<And>l b u. dev (nm_ap_list_copy_properties ops l b u) = dev u"
    using assms by (simp_all add: ops_keep_device_def)
  obtain c s1 where c: "nm_ap_list_combine ops (cached_ap_list1 (dev s)) (cached_ap_list2 (dev s)) s = (c, s1)"
    by (cases "nm_ap_list_combine ops (cached_ap_list1 (dev s)) (cached_ap_list2 (dev s)) s")
  have "dev s1 = dev s" using k(1) [of "cached_ap_list1 (dev s)" "cached_ap_list2 (dev s)" s] c by simp
  then show ?thesis
    by (simp add: scan_combined_def c Let_def k)
qed

lemma scan_keep_artificial_lists:
  "cached_ap_list1 (dev (scan_keep_artificial old s)) = cached_ap_list1 (dev s)"
  "cached_ap_list2 (dev (scan_keep_artificial old s)) = cached_ap_list2 (dev s)"
  "cached_ap_list3 (dev (scan_keep_artificial old s)) = cached_ap_list3 (dev s)"
  using get_essid_lists [of s]
  by (simp_all add: scan_keep_artificial_def append_aps_lists split_beta split: option.splits)

lemma scan_keep_artificial_visible:
  assumes l: "ap_list (dev s) = Some l"
  shows "ap_list (dev (scan_keep_artificial old s))
       = Some (foldl (nm_ap_list_append_ap (utils s) (aps s)) l
                 (case (old, fst (nm_device_get_essid s)) of
                    (Some o1, Some e) \<Rightarrow>
                      filter (\<lambda>a. ap_essid (aps s a) = Some e \<and> ap_artificial (aps s a)) o1
                  | _ \<Rightarrow> []))"
proof (cases old)
  case None
  then show ?thesis using l by (simp add: scan_keep_artificial_def)
next
  case (Some o1)
  have g: "ap_list (dev (snd (nm_device_get_essid s))) = Some l"
    using l by (simp add: get_essid_lists)
  show ?thesis
    using Some append_aps_lists(1) [OF g]
    by (simp add: scan_keep_artificial_def split_beta kept_artificial_aps_def get_essid_lists
          split: option.splits)
qed

lemma scan_report_dev:
  assumes "ops_keep_device ops"
  shows "dev (scan_report ops e s) = dev s"
proof -
  have k: "\<And>a b u. dev (snd (nm_ap_list_combine ops a b u)) = dev u"
    "\<And>a b u. dev (nm_ap_list_diff ops a b u) = dev u"
    using assms by (simp_all add: ops_keep_device_def)
  obtain c s1 where c: "nm_ap_list_combine ops (cached_ap_list3 (dev s)) e s = (c, s1)"
    by (cases "nm_ap_list_combine ops (cached_ap_list3 (dev s)) e s")
  have "dev s1 = dev s" using k(1) [of "cached_ap_list3 (dev s)" e s] c by simp
  then show ?thesis by (simp add: scan_report_def c k)
qed

text \<open>
  C7 (amended).  On every scan-processing cycle of a real wireless device that can
  scan (with list operations that leave the device record alone), the snapshot ring
  shifts S3 \<open>\<leftarrow>\<close> S2, S2 \<open>\<leftarrow>\<close> S1, S1 \<open>\<leftarrow>\<close> the newly converted scan, and the device's
  visible list becomes \<open>combine (S1, S2)\<close> of the two newest snapshots \<^emph>\<open>to which are
  appended, in their order, the access points of the previous visible list that are
  artificial and whose ESSID is the one the card reports as in use\<close> (none when the
  card reports no ESSID).  The card is asked, and the old access points are looked at,
  in the state \<open>u\<close> reached once the combined list has been filled in from the old and
  the allowed lists.
\<close>

theorem process_scan_results_lists:
  assumes ops: "ops_keep_device ops"
    and real: "\<not> test_device (dev s)"
    and can: "fst (nm_device_supports_wireless_scan s)"
  shows "let s' = nm_device_process_scan_results ops uninit (Some scan) s;
             converted = scan_converted ops scan (snd (nm_device_supports_wireless_scan s));
             new_scan = fst (fst converted);
             combined = fst (nm_ap_list_combine ops (Some new_scan) (cached_ap_list1 (dev s))
                               (snd converted));
             u = scan_combined ops (snd (fst converted)) (ap_list (dev s)) (snd converted);
             kept = (case (ap_list (dev s), fst (nm_device_get_essid u)) of
                       (Some old, Some e) \<Rightarrow>
                         filter (\<lambda>a. ap_essid (aps u a) = Some e \<and> ap_artificial (aps u a)) old
                     | _ \<Rightarrow> [])
         in cached_ap_list3 (dev s') = cached_ap_list2 (dev s)
          \<and> cached_ap_list2 (dev s') = cached_ap_list1 (dev s)
          \<and> cached_ap_list1 (dev s') = Some new_scan
          \<and> ap_list (dev s')
               = Some (foldl (nm_ap_list_append_ap (utils u) (aps u)) combined kept)"
proof -
  obtain s0 where sup: "nm_device_supports_wireless_scan s = (True, s0)"
    using can by (cases "nm_device_supports_wireless_scan s") simp
  have s0: "snd (nm_device_supports_wireless_scan s) = s0" by (simp add: sup)
  let ?cv = "scan_converted ops scan s0"
  let ?new = "fst (fst ?cv)" and ?blank = "snd (fst ?cv)" and ?s1 = "snd ?cv"
  let ?s2 = "scan_combined ops ?blank (ap_list (dev s)) ?s1"
  let ?s3 = "scan_keep_artificial (ap_list (dev s)) ?s2"
  let ?s' = "scan_report ops (cached_ap_list3 (dev s)) ?s3"
  let ?combined = "fst (nm_ap_list_combine ops (Some ?new) (cached_ap_list1 (dev s)) ?s1)"
  have d0: "dev s0 = dev s" using supports_scan_frame(1) [of s] by (simp add: sup)
  have unfold: "nm_device_process_scan_results ops uninit (Some scan) s = ?s'"
    using real
    by (simp add: nm_device_process_scan_results_def sup d0 Let_def split_beta)
  have d1: "dev ?s1 = (dev s)\<lparr>cached_ap_list3 := cached_ap_list2 (dev s),
                cached_ap_list2 := cached_ap_list1 (dev s),
                cached_ap_list1 := Some ?new\<rparr>"
    by (simp add: scan_converted_dev d0)
  have d2: "dev ?s2 = (dev ?s1)\<lparr>ap_list := Some ?combined\<rparr>"
    by (simp add: scan_combined_dev [OF ops] d1)
  have l2: "ap_list (dev ?s2) = Some ?combined"
    "cached_ap_list1 (dev ?s2) = Some ?new"
    "cached_ap_list2 (dev ?s2) = cached_ap_list1 (dev s)"
    "cached_ap_list3 (dev ?s2) = cached_ap_list2 (dev s)"
    by (simp_all only: d2 d1) simp_all
  have l3: "cached_ap_list1 (dev ?s3) = Some ?new"
    "cached_ap_list2 (dev ?s3) = cached_ap_list1 (dev s)"
    "cached_ap_list3 (dev ?s3) = cached_ap_list2 (dev s)"
    using l2 by (simp_all only: scan_keep_artificial_lists)
  have a3: "ap_list (dev ?s3)
       = Some (foldl (nm_ap_list_append_ap (utils ?s2) (aps ?s2)) ?combined
                 (case (ap_list (dev s), fst (nm_device_get_essid ?s2)) of
                    (Some o1, Some e) \<Rightarrow>
                      filter (\<lambda>a. ap_essid (aps ?s2 a) = Some e \<and> ap_artificial (aps ?s2 a)) o1
                  | _ \<Rightarrow> []))"
    using l2(1) by (rule scan_keep_artificial_visible)
  have dfin: "dev ?s' = dev ?s3" by (rule scan_report_dev [OF ops])
  show ?thesis
    unfolding Let_def unfold dfin s0
    using l3 a3 by simp
qed

lemma ex_ops_keep_device: "ops_keep_device ex_ops"
  by (simp add: ops_keep_device_def ex_ops_def)

lemma ex_artificial_scan:
  "dev (nm_device_process_scan_results ex_ops (bad_addr, bad_addr) (Some [ex_scan_home]) ex_artificial)
     = ex_dev\<lparr>ap_list := Some [1, 0], best_ap := Some 0, freeze_best_ap := True,
              cached_ap_list1 := Some [1], cached_ap_list2 := Some [],
              cached_ap_list3 := Some [], cur_essid := Some ''cloaked''\<rparr>"
  by (simp add: ex_artificial_def ex_always_associates_def ex_scan_home_def ex_ops_def
        ex_cloaked_ap_def ex_open_bssid_def ex_simps scan_simps radio_simps)

theorem process_scan_results_lists_witness:
  "ops_keep_device ex_ops
   \<and> \<not> test_device (dev ex_artificial)
   \<and> fst (nm_device_supports_wireless_scan ex_artificial)
   \<and> cached_ap_list3 (dev (nm_device_process_scan_results ex_ops (bad_addr, bad_addr)
        (Some [ex_scan_home]) ex_artificial)) = Some []
   \<and> cached_ap_list2 (dev (nm_device_process_scan_results ex_ops (bad_addr, bad_addr)
        (Some [ex_scan_home]) ex_artificial)) = Some []
   \<and> cached_ap_list1 (dev (nm_device_process_scan_results ex_ops (bad_addr, bad_addr)
        (Some [ex_scan_home]) ex_artificial)) = Some [1]
   \<and> ap_list (dev (nm_device_process_scan_results ex_ops (bad_addr, bad_addr)
        (Some [ex_scan_home]) ex_artificial)) = Some ([1] @ [0])
   \<and> ap_list (dev ex_artificial) = Some [0]
   \<and> ap_artificial (aps ex_artificial 0)
   \<and> ap_essid (aps ex_artificial 0) = Some ''cloaked''"
proof -
  have h: "\<not> test_device (dev ex_artificial)"
    "fst (nm_device_supports_wireless_scan ex_artificial)"
    by (simp_all add: ex_artificial_def ex_always_associates_def ex_simps scan_simps klog_def)
  have a: "ap_list (dev ex_artificial) = Some [0]" "ap_artificial (aps ex_artificial 0)"
    "ap_essid (aps ex_artificial 0) = Some ''cloaked''"
    by (simp_all add: ex_artificial_def ex_always_associates_def ex_cloaked_ap_def ex_simps)
  let ?s' = "nm_device_process_scan_results ex_ops (bad_addr, bad_addr) (Some [ex_scan_home])
               ex_artificial"
  from process_scan_results_lists [OF ex_ops_keep_device h, of "(bad_addr, bad_addr)" "[ex_scan_home]"]
  have r: "cached_ap_list3 (dev ?s') = cached_ap_list2 (dev ex_artificial)
         \<and> cached_ap_list2 (dev ?s') = cached_ap_list1 (dev ex_artificial)
         \<and> ap_list (dev ?s') \<noteq> None"
    by (simp add: Let_def)
  show ?thesis
    using r ex_ops_keep_device h ex_artificial_scan a by simp
qed

text \<open>
  The claim as first stated fails when the card is using a cloaked network that a
  directed selection added as an artificial access point (0): after a scan that saw
  only "home" (1), the visible list is \<open>[1, 0]\<close>, while the combination of the two
  newest snapshots is \<open>[1]\<close>.
\<close>

theorem process_scan_results_artificial_counterexample:
  "ops_keep_device ex_ops
   \<and> \<not> test_device (dev ex_artificial)
   \<and> fst (nm_device_supports_wireless_scan ex_artificial)
   \<and> ap_list (dev (nm_device_process_scan_results ex_ops (bad_addr, bad_addr)
        (Some [ex_scan_home]) ex_artificial)) = Some [1, 0]
   \<and> fst (nm_ap_list_combine ex_ops
        (cached_ap_list1 (dev (nm_device_process_scan_results ex_ops (bad_addr, bad_addr)
           (Some [ex_scan_home]) ex_artificial)))
        (cached_ap_list2 (dev (nm_device_process_scan_results ex_ops (bad_addr, bad_addr)
           (Some [ex_scan_home]) ex_artificial)))
        (nm_device_process_scan_results ex_ops (bad_addr, bad_addr)
           (Some [ex_scan_home]) ex_artificial)) = [1]"
proof -
  have h: "\<not> test_device (dev ex_artificial)"
    "fst (nm_device_supports_wireless_scan ex_artificial)"
    by (simp_all add: ex_artificial_def ex_always_associates_def ex_simps scan_simps klog_def)
  have c: "\<And>a b u. fst (nm_ap_list_combine ex_ops (Some a) (Some b) u) = remdups (a @ b)"
    by (simp add: ex_ops_def)
  show ?thesis
    using ex_ops_keep_device h by (simp add: ex_artificial_scan c)
qed
section \<open>The authentication fallback of a wireless activation\<close>



lemma untouched_wireless:
  "untouched_by_radio s s' \<Longrightarrow> nm_device_is_wireless (dev s') = nm_device_is_wireless (dev s)"
  by (simp add: untouched_by_radio_def nm_device_is_wireless_def)











































end
